theory Spec2Isabelle
  imports Main "HOL-Library.Sublist"
begin

section \<open>JavaScript strings\<close>

text \<open>
  Strings are lists of 8-bit characters. \<open>toUpperCase\<close> and \<open>toLowerCase\<close> act on
  the ASCII letters, which covers every identifier the generator itself produces.
\<close>

definition toUpperCase_char :: "char \<Rightarrow> char" where
  "toUpperCase_char c =
     (let n = (of_char c :: nat) in if 97 \<le> n \<and> n \<le> 122 then char_of (n - 32) else c)"

definition toLowerCase_char :: "char \<Rightarrow> char" where
  "toLowerCase_char c =
     (let n = (of_char c :: nat) in if 65 \<le> n \<and> n \<le> 90 then char_of (n + 32) else c)"

definition toUpperCase :: "string \<Rightarrow> string" where
  "toUpperCase s = map toUpperCase_char s"

definition toLowerCase :: "string \<Rightarrow> string" where
  "toLowerCase s = map toLowerCase_char s"

text \<open>\<open>Array.prototype.join\<close>.\<close>

fun join :: "string \<Rightarrow> string list \<Rightarrow> string" where
  "join sep [] = []"
| "join sep [x] = x"
| "join sep (x # y # ys) = x @ sep @ join sep (y # ys)"

text \<open>\<open>String.prototype.replace\<close> with a string pattern: the first occurrence only.\<close>

fun replaceFirst :: "string \<Rightarrow> string \<Rightarrow> string \<Rightarrow> string" where
  "replaceFirst pat rep [] = (if pat = [] then rep else [])"
| "replaceFirst pat rep (c # cs) =
     (if prefix pat (c # cs) then rep @ drop (length pat) (c # cs)
      else c # replaceFirst pat rep cs)"

text \<open>\<open>value.replace(/'/g, "''")\<close>: every single quote is doubled.\<close>

definition escapeQuotes :: "string \<Rightarrow> string" where
  "escapeQuotes s = concat (map (\<lambda>c. if c = CHR 0x27 then [CHR 0x27, CHR 0x27] else [c]) s)"

text \<open>Decimal rendering, as \<open>String(n)\<close> gives for an integer.\<close>

function string_of_nat :: "nat \<Rightarrow> string" where
  "string_of_nat n =
     (if n < 10 then [char_of (48 + n)]
      else string_of_nat (n div 10) @ [char_of (48 + n mod 10)])"
  by pat_completeness auto
termination
  by (relation "measure id") auto

declare string_of_nat.simps [simp del]

definition string_of_int :: "int \<Rightarrow> string" where
  "string_of_int i = (if i < 0 then CHR ''-'' # string_of_nat (nat (- i)) else string_of_nat (nat i))"

definition quoted :: "string \<Rightarrow> string" where
  "quoted s = [CHR 0x22] @ s @ [CHR 0x22]"

section \<open>JSON values: expressions and conditions\<close>

text \<open>
  \<open>AnyExpression\<close> and \<open>Condition\<close> are JSON trees. An object is the list of its
  own properties in the order in which JavaScript enumerates them; \<open>undefined\<close> is
  \<open>None\<close> at the places that admit it. Numbers are modelled by the integers, so there
  is no \<open>NaN\<close> (schema validation rejects it). A property that is added to an object
  goes to the end of the list: keys that look like array indices, which JavaScript would
  keep in front, are not treated apart there.
\<close>

datatype json =
    JNull
  | JBool bool
  | JNum int
  | JStr string
  | JArr "json list"
  | JObj "(string \<times> json) list"

text \<open>The enumerable own properties of a value, as \<open>Object.keys\<close> and \<open>v[key]\<close> see them.\<close>

fun entries :: "json \<Rightarrow> (string \<times> json) list" where
  "entries (JObj kvs) = kvs"
| "entries (JArr xs) = zip (map string_of_nat [0 ..< length xs]) xs"
| "entries _ = []"

definition keys :: "json \<Rightarrow> string list" where
  "keys v = map fst (entries v)"

definition getProp :: "json \<Rightarrow> string \<Rightarrow> json option" where
  "getProp v k = map_of (entries v) k"

fun typeof :: "json option \<Rightarrow> string" where
  "typeof None = ''undefined''"
| "typeof (Some JNull) = ''object''"
| "typeof (Some (JBool _)) = ''boolean''"
| "typeof (Some (JNum _)) = ''number''"
| "typeof (Some (JStr _)) = ''string''"
| "typeof (Some (JArr _)) = ''object''"
| "typeof (Some (JObj _)) = ''object''"

text \<open>
  \<open>a === b\<close>. Primitives compare by value. Two objects are identical only as references;
  the model takes object operands as distinct references, and \<open>deepEqual\<close> then compares
  them structurally (for one and the same reference that gives the same answer, see
  \<open>deepEqual_refl\<close>).
\<close>

fun strictEq :: "json option \<Rightarrow> json option \<Rightarrow> bool" where
  "strictEq None None = True"
| "strictEq (Some JNull) (Some JNull) = True"
| "strictEq (Some (JBool a)) (Some (JBool b)) = (a = b)"
| "strictEq (Some (JNum a)) (Some (JNum b)) = (a = b)"
| "strictEq (Some (JStr a)) (Some (JStr b)) = (a = b)"
| "strictEq _ _ = False"

fun isNullish :: "json option \<Rightarrow> bool" where
  "isNullish None = True"
| "isNullish (Some JNull) = True"
| "isNullish _ = False"

fun jsize :: "json option \<Rightarrow> nat" where
  "jsize None = 0"
| "jsize (Some v) = Suc (size v)"

lemma size_map_of_less:
  "map_of kvs k = Some (v :: json) \<Longrightarrow> size v < Suc (size_list (size_prod (\<lambda>x. 0) size) kvs)"
  by (induction kvs) (auto split: if_splits)

lemma size_mem_less:
  "w \<in> set xs \<Longrightarrow> size (w :: json) < Suc (size_list size xs)"
  by (induction xs) auto

lemma size_getProp_less:
  assumes "k \<in> set (keys v)"
  shows "jsize (getProp v k) < jsize (Some v)"
proof (cases "getProp v k")
  case None
  then show ?thesis by simp
next
  case (Some w)
  show ?thesis
  proof (cases v)
    case (JArr xs)
    from Some JArr have "w \<in> set xs"
      by (auto simp: getProp_def dest!: map_of_SomeD set_zip_rightD)
    then show ?thesis using Some JArr size_mem_less [of w xs] by simp
  next
    case (JObj kvs)
    from Some JObj have "size w < Suc (size_list (size_prod (\<lambda>x. 0) size) kvs)"
      by (simp add: getProp_def size_map_of_less)
    then show ?thesis using Some JObj by simp
  qed (use assms in \<open>simp_all add: keys_def\<close>)
qed

text \<open>
  The utility \<open>deepEqual\<close>. The object branch is reached only when neither operand is
  \<open>null\<close> or \<open>undefined\<close>, so \<open>the a\<close> and \<open>the b\<close> are the operands themselves.
\<close>

function deepEqual :: "json option \<Rightarrow> json option \<Rightarrow> bool" where
  "deepEqual a b =
     (if strictEq a b then True
      else if isNullish a \<or> isNullish b then False
      else if typeof a \<noteq> typeof b then False
      else if typeof a = ''object'' then
        (let keysA = keys (the a); keysB = keys (the b) in
         if length keysA \<noteq> length keysB then False
         else list_all (\<lambda>key. key \<in> set keysB \<and> deepEqual (getProp (the a) key) (getProp (the b) key)) keysA)
      else False)"
  by pat_completeness auto
termination
proof (relation "measure (\<lambda>(a, b). jsize a)", goal_cases)
  case 1
  then show ?case by simp
next
  case (2 a b keysA keysB key)
  then obtain v where "a = Some v" by (cases a) auto
  with 2 show ?case using size_getProp_less [of key v] by simp
qed

declare deepEqual.simps [simp del]

section \<open>The data model\<close>

datatype Dialect = POSTGRESQL | SQLITE_MINIMAL | SQLITE_EXTENSIONS

record ForeignKey =
  fk_table :: string
  fk_field :: string
  onDelete :: "string option"
  onUpdate :: "string option"

record Field =
  field_name :: string
  field_type :: string
  nonNullable :: "bool option"
  primaryKey :: "bool option"
  field_default :: "json option"
  foreignKey :: "ForeignKey option"

record AccessControl =
  ac_read :: json
  ac_create :: json
  ac_update :: json
  ac_delete :: json

record Table =
  table_name :: string
  table_fields :: "Field list"
  accessControl :: AccessControl

record DataModel =
  tables :: "Table list"

record FieldChange =
  type_change :: "(string \<times> string) option"
  nonNullable_change :: "(bool \<times> bool) option"
  primaryKey_change :: "(bool \<times> bool) option"
  default_change :: "(json option \<times> json option) option"
  foreignKey_change :: "(ForeignKey option \<times> ForeignKey option) option"

record TableModification =
  tableName :: string
  fieldsAdded :: "Field list"
  fieldsRemoved :: "Field list"
  fieldsModified :: "(Field \<times> FieldChange) list"
  accessControlChanged :: bool

record AccessControlChange =
  read_change :: "(json \<times> json) option"
  create_change :: "(json \<times> json) option"
  update_change :: "(json \<times> json) option"
  delete_change :: "(json \<times> json) option"

record TableAccessChange =
  ac_tableName :: string
  changes :: AccessControlChange

record TableDiff =
  added :: "Table list"
  removed :: "Table list"
  modified :: "TableModification list"

record AccessControlDiff =
  acd_tables :: "TableAccessChange list"

record DatabaseDiff =
  diff_tables :: TableDiff
  diff_accessControl :: AccessControlDiff

record MigrationResult =
  sql :: string
  accessControlDiff :: AccessControlDiff

text \<open>
  The objects \<open>deepEqual\<close> is applied to, as the JSON values they are: an optional
  property is a key of the object exactly when it is set.
\<close>

definition foreignKey_json :: "ForeignKey \<Rightarrow> json" where
  "foreignKey_json fk =
     JObj ([(''table'', JStr (fk_table fk)), (''field'', JStr (fk_field fk))]
       @ (case onDelete fk of None \<Rightarrow> [] | Some a \<Rightarrow> [(''onDelete'', JStr a)])
       @ (case onUpdate fk of None \<Rightarrow> [] | Some a \<Rightarrow> [(''onUpdate'', JStr a)]))"

definition accessControl_json :: "AccessControl \<Rightarrow> json" where
  "accessControl_json ac =
     JObj [(''read'', ac_read ac), (''create'', ac_create ac),
           (''update'', ac_update ac), (''delete'', ac_delete ac)]"

text \<open>\<open>new Map(entries)\<close>: a later entry with the same key replaces the earlier value.\<close>

definition newMap :: "('k \<times> 'v) list \<Rightarrow> ('k \<rightharpoonup> 'v)" where
  "newMap es = map_of (rev es)"

section \<open>The diff engine\<close>

definition fieldChanges :: "Field \<Rightarrow> Field \<Rightarrow> FieldChange" where
  "fieldChanges oldField newField =
     \<lparr> type_change =
         (if field_type oldField \<noteq> field_type newField
          then Some (field_type oldField, field_type newField) else None),
       nonNullable_change =
         (if nonNullable oldField \<noteq> nonNullable newField
          then Some (case nonNullable oldField of None \<Rightarrow> False | Some b \<Rightarrow> b,
                     case nonNullable newField of None \<Rightarrow> False | Some b \<Rightarrow> b)
          else None),
       primaryKey_change =
         (if primaryKey oldField \<noteq> primaryKey newField
          then Some (case primaryKey oldField of None \<Rightarrow> False | Some b \<Rightarrow> b,
                     case primaryKey newField of None \<Rightarrow> False | Some b \<Rightarrow> b)
          else None),
       default_change =
         (if deepEqual (field_default oldField) (field_default newField) then None
          else Some (field_default oldField, field_default newField)),
       foreignKey_change =
         (if deepEqual (map_option foreignKey_json (foreignKey oldField))
                       (map_option foreignKey_json (foreignKey newField)) then None
          else Some (foreignKey oldField, foreignKey newField)) \<rparr>"

text \<open>\<open>Object.keys(changes).length > 0\<close>\<close>

definition hasFieldChanges :: "FieldChange \<Rightarrow> bool" where
  "hasFieldChanges c =
     (type_change c \<noteq> None \<or> nonNullable_change c \<noteq> None \<or> primaryKey_change c \<noteq> None
      \<or> default_change c \<noteq> None \<or> foreignKey_change c \<noteq> None)"

fun fieldsModifiedLoop :: "(string \<rightharpoonup> Field) \<Rightarrow> Field list \<Rightarrow> (Field \<times> FieldChange) list" where
  "fieldsModifiedLoop oldFieldMap [] = []"
| "fieldsModifiedLoop oldFieldMap (newField # rest) =
     (case oldFieldMap (field_name newField) of
        None \<Rightarrow> fieldsModifiedLoop oldFieldMap rest
      | Some oldField \<Rightarrow>
          (let c = fieldChanges oldField newField in
           if hasFieldChanges c then (newField, c) # fieldsModifiedLoop oldFieldMap rest
           else fieldsModifiedLoop oldFieldMap rest))"

definition generateFieldDiff ::
  "Field list \<Rightarrow> Field list \<Rightarrow> Field list \<times> Field list \<times> (Field \<times> FieldChange) list" where
  "generateFieldDiff oldFields newFields =
     (let oldFieldMap = newMap (map (\<lambda>f. (field_name f, f)) oldFields);
          newFieldMap = newMap (map (\<lambda>f. (field_name f, f)) newFields)
      in (filter (\<lambda>f. oldFieldMap (field_name f) = None) newFields,
          filter (\<lambda>f. newFieldMap (field_name f) = None) oldFields,
          fieldsModifiedLoop oldFieldMap newFields))"

fun modifiedLoop :: "(string \<rightharpoonup> Table) \<Rightarrow> Table list \<Rightarrow> TableModification list" where
  "modifiedLoop oldTableMap [] = []"
| "modifiedLoop oldTableMap (newTable # rest) =
     (case oldTableMap (table_name newTable) of
        None \<Rightarrow> modifiedLoop oldTableMap rest
      | Some oldTable \<Rightarrow>
          (case generateFieldDiff (table_fields oldTable) (table_fields newTable) of
             (fa, fr, fm) \<Rightarrow>
               (let acChanged = (\<not> deepEqual (Some (accessControl_json (accessControl oldTable)))
                                              (Some (accessControl_json (accessControl newTable))))
                in if length fa > 0 \<or> length fr > 0 \<or> length fm > 0 \<or> acChanged
                   then \<lparr> tableName = table_name newTable, fieldsAdded = fa, fieldsRemoved = fr,
                          fieldsModified = fm, accessControlChanged = acChanged \<rparr>
                        # modifiedLoop oldTableMap rest
                   else modifiedLoop oldTableMap rest)))"

definition generateTableDiff :: "Table list \<Rightarrow> Table list \<Rightarrow> TableDiff" where
  "generateTableDiff oldTables newTables =
     (let oldTableMap = newMap (map (\<lambda>t. (table_name t, t)) oldTables);
          newTableMap = newMap (map (\<lambda>t. (table_name t, t)) newTables)
      in \<lparr> added = filter (\<lambda>t. oldTableMap (table_name t) = None) newTables,
           removed = filter (\<lambda>t. newTableMap (table_name t) = None) oldTables,
           modified = modifiedLoop oldTableMap newTables \<rparr>)"

definition conditionChange :: "json \<Rightarrow> json \<Rightarrow> (json \<times> json) option" where
  "conditionChange old new = (if deepEqual (Some old) (Some new) then None else Some (old, new))"

text \<open>The permissive condition \<open>true\<close> every operation of a new table starts from.\<close>

definition defaultCondition :: json where
  "defaultCondition = JBool True"

definition fullAccessChange :: "Table \<Rightarrow> TableAccessChange" where
  "fullAccessChange t =
     \<lparr> ac_tableName = table_name t,
       changes = \<lparr> read_change = Some (defaultCondition, ac_read (accessControl t)),
                   create_change = Some (defaultCondition, ac_create (accessControl t)),
                   update_change = Some (defaultCondition, ac_update (accessControl t)),
                   delete_change = Some (defaultCondition, ac_delete (accessControl t)) \<rparr> \<rparr>"

definition hasAccessChanges :: "AccessControlChange \<Rightarrow> bool" where
  "hasAccessChanges c =
     (read_change c \<noteq> None \<or> create_change c \<noteq> None \<or> update_change c \<noteq> None
      \<or> delete_change c \<noteq> None)"

fun accessControlLoop :: "(string \<rightharpoonup> Table) \<Rightarrow> Table list \<Rightarrow> TableAccessChange list" where
  "accessControlLoop oldTableMap [] = []"
| "accessControlLoop oldTableMap (newTable # rest) =
     (case oldTableMap (table_name newTable) of
        None \<Rightarrow> fullAccessChange newTable # accessControlLoop oldTableMap rest
      | Some oldTable \<Rightarrow>
          (let c = \<lparr> read_change = conditionChange (ac_read (accessControl oldTable))
                                                   (ac_read (accessControl newTable)),
                     create_change = conditionChange (ac_create (accessControl oldTable))
                                                     (ac_create (accessControl newTable)),
                     update_change = conditionChange (ac_update (accessControl oldTable))
                                                     (ac_update (accessControl newTable)),
                     delete_change = conditionChange (ac_delete (accessControl oldTable))
                                                     (ac_delete (accessControl newTable)) \<rparr>
           in if hasAccessChanges c
              then \<lparr> ac_tableName = table_name newTable, changes = c \<rparr>
                   # accessControlLoop oldTableMap rest
              else accessControlLoop oldTableMap rest))"

definition generateAccessControlDiff :: "Table list \<Rightarrow> Table list \<Rightarrow> AccessControlDiff" where
  "generateAccessControlDiff oldTables newTables =
     \<lparr> acd_tables = accessControlLoop (newMap (map (\<lambda>t. (table_name t, t)) oldTables)) newTables \<rparr>"

definition generateAccessControlDiffForFullMigration :: "Table list \<Rightarrow> AccessControlDiff" where
  "generateAccessControlDiffForFullMigration ts = \<lparr> acd_tables = map fullAccessChange ts \<rparr>"

definition generateDatabaseDiff :: "DataModel \<Rightarrow> DataModel \<Rightarrow> DatabaseDiff" where
  "generateDatabaseDiff oldModel newModel =
     \<lparr> diff_tables = generateTableDiff (tables oldModel) (tables newModel),
       diff_accessControl = generateAccessControlDiff (tables oldModel) (tables newModel) \<rparr>"

section \<open>The external compiler and the runtime\<close>

text \<open>
  \<open>parseExpression\<close> and \<open>parseCondition\<close> belong to the package
  \<open>json-to-sql-parser\<close>, and \<open>Date.now\<close> to the runtime: the generator takes them
  as given, so they are parameters here. A compiler call either throws (\<open>Inl\<close> with
  the message of the error) or returns the SQL text; it may write to the
  \<open>expressions\<close> map of the state it is handed, so the map it leaves behind is part
  of its result. \<open>ExpressionTypeMap\<close> is a class of that package as well: all the
  generator does is create it empty, so a list of entries stands for it.
  \<open>dateNow k\<close> is what the \<open>k\<close>-th call of \<open>Date.now()\<close> within one operation
  reads.

  Two texts are the runtime's own as well. The message of a \<open>TypeError\<close> is worded by
  the engine (\<open>typeErrorMessage\<close>, one message for each place of the generator that can
  raise one). A built-in function converted to a string reads as the keyword
  \<open>function\<close> followed by text of the engine's choosing, for instance
  \<open> toString() { [native code] }\<close>; \<open>nativeFunctionTail\<close> gives that text for the
  function of a given name.
\<close>

datatype TypeErrorKind =
    EntriesOfNull    \<comment> \<open>\<open>Object.entries(null)\<close>\<close>
  | MapOfNull        \<comment> \<open>\<open>args.map\<close> where \<open>args\<close> is \<open>null\<close>\<close>
  | MapNotAFunction  \<comment> \<open>\<open>args.map(...)\<close> where \<open>args\<close> is no array\<close>

type_synonym ExpressionTypeMap = "(string \<times> string) list"

record AllowedField =
  af_name :: string
  af_type :: string
  af_nullable :: bool
  af_default :: "json option"

record Relationship =
  rel_table :: string
  rel_field :: string
  rel_toTable :: string
  rel_toField :: string
  rel_type :: string

record Config =
  cfg_tables :: "(string \<times> AllowedField list) list"
  cfg_variables :: "(string \<times> json) list"
  cfg_relationships :: "Relationship list"
  cfg_dialect :: Dialect

record ParserState =
  config :: Config
  rootTable :: string
  expressions :: ExpressionTypeMap

record Env =
  parseExpression :: "json \<Rightarrow> ParserState \<Rightarrow> string + (string \<times> ExpressionTypeMap)"
  parseCondition :: "json \<Rightarrow> ParserState \<Rightarrow> string + (string \<times> ExpressionTypeMap)"
  dateNow :: "nat \<Rightarrow> nat"
  typeErrorMessage :: "TypeErrorKind \<Rightarrow> string"
  nativeFunctionTail :: "string \<Rightarrow> string"

text \<open>Running a list of fallible steps in order; the first throw ends the run.\<close>

fun mapE :: "('a \<Rightarrow> string + 'b) \<Rightarrow> 'a list \<Rightarrow> string + 'b list" where
  "mapE f [] = Inr []"
| "mapE f (x # xs) =
     (case f x of
        Inl e \<Rightarrow> Inl e
      | Inr y \<Rightarrow> (case mapE f xs of Inl e \<Rightarrow> Inl e | Inr ys \<Rightarrow> Inr (y # ys)))"

section \<open>Dialect type map and parser configuration\<close>

definition typeMap :: "Dialect \<Rightarrow> (string \<times> string) list" where
  "typeMap dialect =
     (case dialect of
        POSTGRESQL \<Rightarrow>
          [(''string'', ''TEXT''), (''number'', ''NUMERIC''), (''boolean'', ''BOOLEAN''),
           (''object'', ''JSONB''), (''date'', ''DATE''),
           (''datetime'', ''TIMESTAMP WITH TIME ZONE''), (''uuid'', ''UUID'')]
      | SQLITE_MINIMAL \<Rightarrow>
          [(''string'', ''TEXT''), (''number'', ''REAL''), (''boolean'', ''INTEGER''),
           (''object'', ''TEXT''), (''date'', ''TEXT''), (''datetime'', ''TEXT''),
           (''uuid'', ''TEXT'')]
      | SQLITE_EXTENSIONS \<Rightarrow>
          [(''string'', ''TEXT''), (''number'', ''REAL''), (''boolean'', ''INTEGER''),
           (''object'', ''JSON''), (''date'', ''TEXT''), (''datetime'', ''TEXT''),
           (''uuid'', ''TEXT'')])"

text \<open>
  The type map is a plain object, so \<open>typeMap[dialect][fieldType]\<close> also finds what the
  object inherits from \<open>Object.prototype\<close>: eleven built-in functions, here with the
  names they print under, and the accessor \<open>__proto__\<close>, which yields the prototype
  object. All of them are truthy, so \<open>|| "TEXT"\<close> lets them through, and the template
  string turns them into text: a function into its source text, the prototype object into
  \<open>[object Object]\<close>.
\<close>

definition objectPrototypeFunctions :: "(string \<times> string) list" where
  "objectPrototypeFunctions =
     [(''constructor'', ''Object''),
      (''__defineGetter__'', ''__defineGetter__''),
      (''__defineSetter__'', ''__defineSetter__''),
      (''hasOwnProperty'', ''hasOwnProperty''),
      (''__lookupGetter__'', ''__lookupGetter__''),
      (''__lookupSetter__'', ''__lookupSetter__''),
      (''isPrototypeOf'', ''isPrototypeOf''),
      (''propertyIsEnumerable'', ''propertyIsEnumerable''),
      (''toString'', ''toString''),
      (''valueOf'', ''valueOf''),
      (''toLocaleString'', ''toLocaleString'')]"

definition mapFieldTypeToSQL :: "Env \<Rightarrow> string \<Rightarrow> Dialect \<Rightarrow> string" where
  "mapFieldTypeToSQL env fieldType dialect =
     (case map_of (typeMap dialect) fieldType of
        Some t \<Rightarrow> t
      | None \<Rightarrow>
          (case map_of objectPrototypeFunctions fieldType of
             Some functionName \<Rightarrow> ''function'' @ nativeFunctionTail env functionName
           | None \<Rightarrow> if fieldType = ''__proto__'' then ''[object Object]'' else ''TEXT''))"

definition mapFieldType :: "string \<Rightarrow> string" where
  "mapFieldType fieldType =
     (let t = toLowerCase fieldType in
      if t \<in> set [''text'', ''string'', ''varchar'', ''char''] then ''string''
      else if t \<in> set [''int'', ''integer'', ''bigint'', ''smallint'', ''decimal'', ''numeric'',
                         ''real'', ''double'', ''float''] then ''number''
      else if t \<in> set [''bool'', ''boolean''] then ''boolean''
      else if t \<in> set [''json'', ''jsonb''] then ''object''
      else if t = ''date'' then ''date''
      else if t \<in> set [''datetime'', ''timestamp'', ''timestamptz''] then ''datetime''
      else if t = ''uuid'' then ''uuid''
      else ''string'')"

text \<open>\<open>obj[key] = value\<close> on an object kept as its entry list.\<close>

fun setProp :: "string \<Rightarrow> 'v \<Rightarrow> (string \<times> 'v) list \<Rightarrow> (string \<times> 'v) list" where
  "setProp k v [] = [(k, v)]"
| "setProp k v ((k', v') # rest) =
     (if k = k' then (k, v) # rest else (k', v') # setProp k v rest)"

definition truthy :: "bool option \<Rightarrow> bool" where
  "truthy b = (b = Some True)"

definition createParserConfig :: "DataModel \<Rightarrow> Dialect \<Rightarrow> Config" where
  "createParserConfig model dialect =
     \<lparr> cfg_tables =
         foldl (\<lambda>acc t. setProp (table_name t)
                  (map (\<lambda>f. \<lparr> af_name = field_name f, af_type = mapFieldType (field_type f),
                                af_nullable = (\<not> truthy (nonNullable f)),
                                af_default = field_default f \<rparr>) (table_fields t)) acc)
               [] (tables model),
       cfg_variables =
         [(''user_id'', JObj [(''$uuid'', JStr ''550e8400-e29b-41d4-a716-446655440000'')])],
       cfg_relationships =
         concat (map (\<lambda>t. concat (map (\<lambda>f.
             (case foreignKey f of
                None \<Rightarrow> []
              | Some fk \<Rightarrow> [\<lparr> rel_table = table_name t, rel_field = field_name f,
                             rel_toTable = fk_table fk, rel_toField = fk_field fk,
                             rel_type = ''many-to-one'' \<rparr>])) (table_fields t))) (tables model)),
       cfg_dialect = dialect \<rparr>"

section \<open>Default values\<close>

text \<open>
  \<open>normalizeExpression\<close> is written for an expression whose \<open>$func\<close> node maps
  function names to argument arrays. On any other shape the runtime raises a
  \<open>TypeError\<close>: \<open>Object.entries(null)\<close>, or \<open>args.map\<close> where \<open>args\<close> is \<open>null\<close> or
  has no method \<open>map\<close> (the characters of a string are such values). The result says
  which one; \<open>formatDefaultValue\<close>, which catches it, reads the engine's message.
\<close>

fun lsize :: "json list \<Rightarrow> nat" where
  "lsize [] = 0"
| "lsize (x # xs) = Suc (size x) + lsize xs"

fun esize :: "(string \<times> json) list \<Rightarrow> nat" where
  "esize [] = 0"
| "esize (kv # kvs) = Suc (size (snd kv)) + esize kvs"

lemma lsize_eq: "lsize xs = size_list size xs"
  by (induction xs) auto

lemma esize_le: "esize kvs \<le> size_list (size_prod (\<lambda>x. 0) size) kvs"
  by (induction kvs) auto

lemma esize_zip: "esize (zip ks xs) \<le> lsize xs"
proof (induction xs arbitrary: ks)
  case Nil
  then show ?case by simp
next
  case (Cons x xs)
  show ?case
  proof (cases ks)
    case Nil
    then show ?thesis by simp
  next
    case (Cons k ks')
    then show ?thesis using Cons.IH [of ks'] by simp
  qed
qed

function normalizeExpression :: "json \<Rightarrow> TypeErrorKind + json"
  and normalizeArgs :: "json list \<Rightarrow> TypeErrorKind + json list"
  and normalizeFunc ::
    "(string \<times> json) list \<Rightarrow> (string \<times> json) list
     \<Rightarrow> TypeErrorKind + (string \<times> json) list"
  and normalizeProps ::
    "(string \<times> json) list \<Rightarrow> (string \<times> json) list
     \<Rightarrow> TypeErrorKind + (string \<times> json) list"
where
  "normalizeExpression (JObj kvs) =
     (case map_of kvs ''$func'' of
        Some funcExpr \<Rightarrow>
          (case funcExpr of
             JNull \<Rightarrow> Inl EntriesOfNull
           | JStr str \<Rightarrow>
               (if str = [] then Inr (JObj [(''$func'', JObj [])]) else Inl MapNotAFunction)
           | _ \<Rightarrow>
             (case normalizeFunc (entries funcExpr) [] of
                Inl e \<Rightarrow> Inl e
              | Inr normalizedFunc \<Rightarrow> Inr (JObj [(''$func'', JObj normalizedFunc)])))
      | None \<Rightarrow>
          (case normalizeProps kvs [] of
             Inl e \<Rightarrow> Inl e
           | Inr normalized \<Rightarrow> Inr (JObj normalized)))"
| "normalizeExpression (JArr xs) = Inr (JArr xs)"
| "normalizeExpression (JStr str) = Inr (JStr str)"
| "normalizeExpression (JNum n) = Inr (JNum n)"
| "normalizeExpression (JBool b) = Inr (JBool b)"
| "normalizeExpression JNull = Inr JNull"
| "normalizeArgs [] = Inr []"
| "normalizeArgs (arg # args) =
     (case normalizeExpression arg of
        Inl e \<Rightarrow> Inl e
      | Inr a \<Rightarrow> (case normalizeArgs args of Inl e \<Rightarrow> Inl e | Inr as \<Rightarrow> Inr (a # as)))"
| "normalizeFunc [] normalizedFunc = Inr normalizedFunc"
| "normalizeFunc ((funcName, args) # rest) normalizedFunc =
     (let normalizedName =
            (if toLowerCase funcName = ''now'' then ''NOW'' else toUpperCase funcName) in
      case args of
        JArr xs \<Rightarrow>
          (case normalizeArgs xs of
             Inl e \<Rightarrow> Inl e
           | Inr ys \<Rightarrow> normalizeFunc rest (setProp normalizedName (JArr ys) normalizedFunc))
      | JNull \<Rightarrow> Inl MapOfNull
      | _ \<Rightarrow> Inl MapNotAFunction)"
| "normalizeProps [] normalized = Inr normalized"
| "normalizeProps ((key, v) # rest) normalized =
     (if typeof (Some v) = ''object'' \<and> v \<noteq> JNull
      then (case normalizeExpression v of
              Inl e \<Rightarrow> Inl e
            | Inr v' \<Rightarrow> normalizeProps rest (setProp key v' normalized))
      else normalizeProps rest (setProp key v normalized))"
  by pat_completeness auto
termination
  apply (relation "measure (\<lambda>x. case x of
      Inl (Inl e) \<Rightarrow> 2 * size e + 1
    | Inl (Inr xs) \<Rightarrow> 2 * lsize xs
    | Inr (Inl (ents, acc)) \<Rightarrow> 2 * esize ents
    | Inr (Inr (kvs, acc)) \<Rightarrow> 2 * esize kvs)")
          apply simp_all
  subgoal for kvs
    using esize_le [of kvs] by simp
  subgoal for kvs funcExpr xs
    using esize_zip [of "map string_of_nat [0 ..< length xs]" xs]
      size_map_of_less [of kvs "''$func''" "JArr xs"]
    by (simp add: lsize_eq)
  subgoal for kvs funcExpr kvs'
    using esize_le [of kvs'] size_map_of_less [of kvs "''$func''" "JObj kvs'"]
    by simp
  subgoal for funcName args rest x xs
    by (simp add: lsize_eq)
  done

text \<open>
  \<open>formatDefaultValue\<close>. No caller passes the optional \<open>model\<close>, so the compiler
  always gets the empty configuration.
\<close>

definition isSqlite :: "Dialect \<Rightarrow> bool" where
  "isSqlite dialect = (dialect = SQLITE_MINIMAL \<or> dialect = SQLITE_EXTENSIONS)"

definition emptyState :: "Dialect \<Rightarrow> ParserState" where
  "emptyState dialect =
     \<lparr> config = \<lparr> cfg_tables = [], cfg_variables = [], cfg_relationships = [],
                  cfg_dialect = dialect \<rparr>,
       rootTable = [], expressions = [] \<rparr>"

definition failedToParse :: "string \<Rightarrow> string" where
  "failedToParse message = ''Failed to parse expression: '' @ message"

definition formatComplex :: "Env \<Rightarrow> json \<Rightarrow> Dialect \<Rightarrow> string + string" where
  "formatComplex env v dialect =
     (case normalizeExpression v of
        Inl kind \<Rightarrow> Inl (failedToParse (typeErrorMessage env kind))
      | Inr normalizedValue \<Rightarrow>
          (case parseExpression env normalizedValue (emptyState dialect) of
             Inl message \<Rightarrow> Inl (failedToParse message)
           | Inr (s, _) \<Rightarrow>
               if isSqlite dialect \<and> s = ''DATETIME()'' then Inr ''CURRENT_TIMESTAMP''
               else Inr s))"

fun formatDefaultValue :: "Env \<Rightarrow> json option \<Rightarrow> Dialect \<Rightarrow> string + string" where
  "formatDefaultValue env None dialect = Inr ''NULL''"
| "formatDefaultValue env (Some JNull) dialect = Inr ''NULL''"
| "formatDefaultValue env (Some (JStr v)) dialect = Inr ([CHR 0x27] @ escapeQuotes v @ [CHR 0x27])"
| "formatDefaultValue env (Some (JNum n)) dialect = Inr (string_of_int n)"
| "formatDefaultValue env (Some (JBool b)) dialect =
     (if isSqlite dialect then Inr (if b then ''1'' else ''0'')
      else Inr (if b then ''true'' else ''false''))"
| "formatDefaultValue env (Some (JArr xs)) dialect = formatComplex env (JArr xs) dialect"
| "formatDefaultValue env (Some (JObj kvs)) dialect = formatComplex env (JObj kvs) dialect"

section \<open>SQL generation\<close>

definition nl :: string where
  "nl = [CHR 0x0A]"

text \<open>\<open>sqlParts.filter(Boolean).join("\n\n")\<close>\<close>

definition joinParts :: "string list \<Rightarrow> string" where
  "joinParts sqlParts = join (nl @ nl) (filter (\<lambda>p. p \<noteq> []) sqlParts)"

text \<open>
  The \<open>ON DELETE\<close> and \<open>ON UPDATE\<close> suffixes and the \<open>ADD CONSTRAINT\<close> statement
  are written out at each place of the source that emits a foreign key, always in the
  same words; so are the \<open>DROP\<close> statements below.
\<close>

definition onActions :: "ForeignKey \<Rightarrow> string" where
  "onActions fk =
     (case onDelete fk of
        None \<Rightarrow> []
      | Some a \<Rightarrow> if a \<noteq> [] then '' ON DELETE '' @ replaceFirst '' '' '' '' (toUpperCase a) else [])
     @ (case onUpdate fk of
          None \<Rightarrow> []
        | Some a \<Rightarrow> if a \<noteq> [] then '' ON UPDATE '' @ replaceFirst '' '' '' '' (toUpperCase a) else [])"

definition constraintName :: "string \<Rightarrow> string \<Rightarrow> string" where
  "constraintName tName fName = ''fk_'' @ tName @ ''_'' @ fName"

definition addConstraintSQL :: "string \<Rightarrow> string \<Rightarrow> ForeignKey \<Rightarrow> string" where
  "addConstraintSQL tName fName fk =
     ''ALTER TABLE '' @ quoted tName @ '' ADD CONSTRAINT '' @ quoted (constraintName tName fName)
     @ '' FOREIGN KEY ('' @ quoted fName @ '') REFERENCES '' @ quoted (fk_table fk)
     @ '' ('' @ quoted (fk_field fk) @ '')'' @ onActions fk @ '';''"

definition dropConstraintSQL :: "string \<Rightarrow> string \<Rightarrow> string" where
  "dropConstraintSQL tName fName =
     ''ALTER TABLE '' @ quoted tName @ '' DROP CONSTRAINT IF EXISTS ''
     @ quoted (constraintName tName fName) @ '';''"

definition dropTableSQL :: "string \<Rightarrow> string" where
  "dropTableSQL tName = ''DROP TABLE IF EXISTS '' @ quoted tName @ '';''"

definition dropColumnSQL :: "string \<Rightarrow> string \<Rightarrow> string" where
  "dropColumnSQL tName fName =
     ''ALTER TABLE '' @ quoted tName @ '' DROP COLUMN '' @ quoted fName @ '';''"

text \<open>The \<open>DEFAULT\<close> clause of a column, present when the field declares a default.\<close>

definition defaultClause :: "Env \<Rightarrow> Field \<Rightarrow> Dialect \<Rightarrow> string + string list" where
  "defaultClause env field dialect =
     (case field_default field of
        None \<Rightarrow> Inr []
      | Some v \<Rightarrow>
          (case formatDefaultValue env (Some v) dialect of
             Inl e \<Rightarrow> Inl e
           | Inr d \<Rightarrow> Inr [''DEFAULT '' @ d]))"

text \<open>The \<open>parts\<close> of one column of \<open>generateCreateTableSQL\<close>.\<close>

definition createColumnParts :: "Env \<Rightarrow> Dialect \<Rightarrow> Field \<Rightarrow> string + string list" where
  "createColumnParts env dialect field =
     (case defaultClause env field dialect of
        Inl e \<Rightarrow> Inl e
      | Inr d \<Rightarrow>
          Inr ([quoted (field_name field), mapFieldTypeToSQL env (field_type field) dialect]
               @ (if truthy (primaryKey field) then [''PRIMARY KEY''] else [])
               @ (if truthy (nonNullable field) \<and> \<not> truthy (primaryKey field)
                  then [''NOT NULL''] else [])
               @ d))"

definition createColumn :: "Env \<Rightarrow> Dialect \<Rightarrow> Field \<Rightarrow> string + string" where
  "createColumn env dialect field =
     (case createColumnParts env dialect field of
        Inl e \<Rightarrow> Inl e
      | Inr parts \<Rightarrow> Inr (''  '' @ join '' '' parts))"

definition inlineForeignKeys :: "Dialect \<Rightarrow> Field list \<Rightarrow> string list" where
  "inlineForeignKeys dialect fs =
     (if isSqlite dialect
      then concat (map (\<lambda>f.
             (case foreignKey f of
                None \<Rightarrow> []
              | Some fk \<Rightarrow>
                  [''  FOREIGN KEY ('' @ quoted (field_name f) @ '') REFERENCES ''
                   @ quoted (fk_table fk) @ '' ('' @ quoted (fk_field fk) @ '')''
                   @ onActions fk])) fs)
      else [])"

definition enableRLS :: "string \<Rightarrow> string" where
  "enableRLS tName = ''ALTER TABLE '' @ quoted tName @ '' ENABLE ROW LEVEL SECURITY;''"

definition generateCreateTableSQL :: "Env \<Rightarrow> Table \<Rightarrow> Dialect \<Rightarrow> string + string" where
  "generateCreateTableSQL env t dialect =
     (case mapE (createColumn env dialect) (table_fields t) of
        Inl e \<Rightarrow> Inl e
      | Inr columns \<Rightarrow>
          (let allColumns = columns @ inlineForeignKeys dialect (table_fields t);
               stmt = ''CREATE TABLE '' @ quoted (table_name t) @ '' ('' @ nl
                      @ join ('','' @ nl) allColumns @ nl @ '');''
           in if dialect = POSTGRESQL then Inr (stmt @ nl @ nl @ enableRLS (table_name t))
              else Inr stmt))"

text \<open>The \<open>parts\<close> of \<open>generateAddColumnSQL\<close>.\<close>

definition addColumnParts :: "Env \<Rightarrow> string \<Rightarrow> Field \<Rightarrow> Dialect \<Rightarrow> string + string list" where
  "addColumnParts env tName field dialect =
     (case defaultClause env field dialect of
        Inl e \<Rightarrow> Inl e
      | Inr d \<Rightarrow>
          Inr ([''ALTER TABLE '' @ quoted tName, ''ADD COLUMN'', quoted (field_name field),
                mapFieldTypeToSQL env (field_type field) dialect]
               @ (if truthy (nonNullable field) then [''NOT NULL''] else [])
               @ d))"

definition generateAddColumnSQL :: "Env \<Rightarrow> string \<Rightarrow> Field \<Rightarrow> Dialect \<Rightarrow> string + string" where
  "generateAddColumnSQL env tName field dialect =
     (case addColumnParts env tName field dialect of
        Inl e \<Rightarrow> Inl e
      | Inr parts \<Rightarrow> Inr (join '' '' parts @ '';''))"

text \<open>
  \<open>generateAlterColumnSQL\<close>, called when \<open>k\<close> readings of the clock have been taken;
  it returns the statement text and the number of readings taken after it.
  \<open>alterColumnParts\<close> is its \<open>sqlParts\<close>.
\<close>

definition rebuildColumnName :: "Env \<Rightarrow> nat \<Rightarrow> Field \<Rightarrow> string" where
  "rebuildColumnName env k field =
     field_name field @ ''_'' @ string_of_nat (dateNow env k) @ ''_new''"

definition typeChangeParts ::
  "Env \<Rightarrow> nat \<Rightarrow> string \<Rightarrow> Field \<Rightarrow> FieldChange \<Rightarrow> Dialect \<Rightarrow> string list \<times> nat" where
  "typeChangeParts env k tName field c dialect =
     (case type_change c of
        None \<Rightarrow> ([], k)
      | Some (from, to) \<Rightarrow>
          (let newType = mapFieldTypeToSQL env to dialect in
           if dialect = POSTGRESQL
           then ([''ALTER TABLE '' @ quoted tName @ '' ALTER COLUMN '' @ quoted (field_name field)
                  @ '' TYPE '' @ newType @ '';''], k)
           else
             (let newColumnName = rebuildColumnName env k field in
              ([''ALTER TABLE '' @ quoted tName @ '' ADD COLUMN '' @ quoted newColumnName
                @ '' '' @ newType @ '';'',
                ''UPDATE '' @ quoted tName @ '' SET '' @ quoted newColumnName @ '' = CAST(''
                @ quoted (field_name field) @ '' AS '' @ newType @ '');'',
                ''ALTER TABLE '' @ quoted tName @ '' DROP COLUMN '' @ quoted (field_name field)
                @ '';'',
                ''ALTER TABLE '' @ quoted tName @ '' RENAME COLUMN '' @ quoted newColumnName
                @ '' TO '' @ quoted (field_name field) @ '';''], Suc k))))"

definition nullabilityParts :: "string \<Rightarrow> Field \<Rightarrow> FieldChange \<Rightarrow> Dialect \<Rightarrow> string list" where
  "nullabilityParts tName field c dialect =
     (case nonNullable_change c of
        None \<Rightarrow> []
      | Some (from, to) \<Rightarrow>
          if dialect = POSTGRESQL
          then [''ALTER TABLE '' @ quoted tName @ '' ALTER COLUMN '' @ quoted (field_name field)
                @ '' '' @ (if to then ''SET NOT NULL'' else ''DROP NOT NULL'') @ '';'']
          else [])"

definition defaultChangeParts ::
  "Env \<Rightarrow> string \<Rightarrow> Field \<Rightarrow> FieldChange \<Rightarrow> Dialect \<Rightarrow> string + string list" where
  "defaultChangeParts env tName field c dialect =
     (case default_change c of
        None \<Rightarrow> Inr []
      | Some (from, to) \<Rightarrow>
          if dialect = POSTGRESQL
          then (case to of
                  None \<Rightarrow>
                    Inr [''ALTER TABLE '' @ quoted tName @ '' ALTER COLUMN ''
                         @ quoted (field_name field) @ '' DROP DEFAULT;'']
                | Some v \<Rightarrow>
                    (case formatDefaultValue env (Some v) dialect of
                       Inl e \<Rightarrow> Inl e
                     | Inr d \<Rightarrow>
                         Inr [''ALTER TABLE '' @ quoted tName @ '' ALTER COLUMN ''
                              @ quoted (field_name field) @ '' SET DEFAULT '' @ d @ '';'']))
          else Inr [])"

definition alterColumnParts ::
  "Env \<Rightarrow> nat \<Rightarrow> string \<Rightarrow> Field \<Rightarrow> FieldChange \<Rightarrow> Dialect \<Rightarrow> string + (string list \<times> nat)" where
  "alterColumnParts env k tName field c dialect =
     (case typeChangeParts env k tName field c dialect of
        (tp, k') \<Rightarrow>
          (case defaultChangeParts env tName field c dialect of
             Inl e \<Rightarrow> Inl e
           | Inr dp \<Rightarrow> Inr (tp @ nullabilityParts tName field c dialect @ dp, k')))"

definition generateAlterColumnSQL ::
  "Env \<Rightarrow> nat \<Rightarrow> string \<Rightarrow> Field \<Rightarrow> FieldChange \<Rightarrow> Dialect \<Rightarrow> string + (string \<times> nat)" where
  "generateAlterColumnSQL env k tName field c dialect =
     (case alterColumnParts env k tName field c dialect of
        Inl e \<Rightarrow> Inl e
      | Inr (sqlParts, k') \<Rightarrow> Inr (join nl sqlParts, k'))"

section \<open>Row-level-security policies\<close>

definition dropPolicySQL :: "string \<Rightarrow> string \<Rightarrow> string" where
  "dropPolicySQL tName opName =
     ''DROP POLICY IF EXISTS '' @ quoted (tName @ ''_'' @ opName @ ''_policy'') @ '' ON ''
     @ quoted tName @ '';''"

definition createPolicySQL :: "string \<Rightarrow> string \<Rightarrow> string \<Rightarrow> string \<Rightarrow> string" where
  "createPolicySQL tName opName clause condition =
     ''CREATE POLICY '' @ quoted (tName @ ''_'' @ opName @ ''_policy'') @ '' ON ''
     @ quoted tName @ '' '' @ clause @ '' ('' @ condition @ '');''"

text \<open>
  One \<open>if (table.changes.op) { ... }\<close> block: the condition is compiled against the
  state shared by the four blocks of a table, and the statement is pushed.
\<close>

definition policyBlock ::
  "Env \<Rightarrow> (json \<times> json) option \<Rightarrow> (string \<Rightarrow> string) \<Rightarrow> ParserState
   \<Rightarrow> string + (string list \<times> ParserState)" where
  "policyBlock env change stmt state =
     (case change of
        None \<Rightarrow> Inr ([], state)
      | Some (from, to) \<Rightarrow>
          (case parseCondition env to state of
             Inl e \<Rightarrow> Inl e
           | Inr (condition, ex) \<Rightarrow> Inr ([stmt condition], state\<lparr>expressions := ex\<rparr>)))"

definition tablePolicies :: "Env \<Rightarrow> DataModel \<Rightarrow> TableAccessChange \<Rightarrow> string + string list" where
  "tablePolicies env model t =
     (let tName = ac_tableName t;
          drops = [dropPolicySQL tName ''read'', dropPolicySQL tName ''create'',
                   dropPolicySQL tName ''update'', dropPolicySQL tName ''delete''];
          state0 = \<lparr> config = createParserConfig model POSTGRESQL, rootTable = tName,
                     expressions = [] \<rparr>
      in case policyBlock env (read_change (changes t))
                (createPolicySQL tName ''read'' ''FOR SELECT USING'') state0 of
           Inl e \<Rightarrow> Inl e
         | Inr (p1, state1) \<Rightarrow>
         (case policyBlock env (create_change (changes t))
                 (createPolicySQL tName ''create'' ''FOR INSERT WITH CHECK'') state1 of
            Inl e \<Rightarrow> Inl e
          | Inr (p2, state2) \<Rightarrow>
          (case policyBlock env (update_change (changes t))
                  (createPolicySQL tName ''update'' ''FOR UPDATE USING'') state2 of
             Inl e \<Rightarrow> Inl e
           | Inr (p3, state3) \<Rightarrow>
           (case policyBlock env (delete_change (changes t))
                   (createPolicySQL tName ''delete'' ''FOR DELETE USING'') state3 of
              Inl e \<Rightarrow> Inl e
            | Inr (p4, state4) \<Rightarrow> Inr (drops @ p1 @ p2 @ p3 @ p4)))))"

definition generateRLSPoliciesSQL ::
  "Env \<Rightarrow> AccessControlDiff \<Rightarrow> DataModel \<Rightarrow> string + string list" where
  "generateRLSPoliciesSQL env acd model =
     (case mapE (tablePolicies env model) (acd_tables acd) of
        Inl e \<Rightarrow> Inl e
      | Inr blocks \<Rightarrow> Inr (concat blocks))"

section \<open>The two synthesis operations\<close>

definition initialForeignKeys :: "Table list \<Rightarrow> string list" where
  "initialForeignKeys ts =
     concat (map (\<lambda>t. concat (map (\<lambda>f.
       (case foreignKey f of
          None \<Rightarrow> []
        | Some fk \<Rightarrow> [addConstraintSQL (table_name t) (field_name f) fk])) (table_fields t))) ts)"

definition generateInitialMigration :: "Env \<Rightarrow> DataModel \<Rightarrow> Dialect \<Rightarrow> string + MigrationResult" where
  "generateInitialMigration env model dialect =
     (case mapE (\<lambda>t. generateCreateTableSQL env t dialect) (tables model) of
        Inl e \<Rightarrow> Inl e
      | Inr creates \<Rightarrow>
          if dialect = POSTGRESQL
          then (let acd = generateAccessControlDiffForFullMigration (tables model) in
                case generateRLSPoliciesSQL env acd model of
                  Inl e \<Rightarrow> Inl e
                | Inr policies \<Rightarrow>
                    Inr \<lparr> sql = joinParts (creates @ initialForeignKeys (tables model) @ policies),
                          accessControlDiff = acd \<rparr>)
          else Inr \<lparr> sql = joinParts creates, accessControlDiff = \<lparr> acd_tables = [] \<rparr> \<rparr>)"

text \<open>The three inner loops over one table modification.\<close>

definition addedFieldParts :: "Env \<Rightarrow> string \<Rightarrow> Dialect \<Rightarrow> Field \<Rightarrow> string + string list" where
  "addedFieldParts env tName dialect field =
     (case generateAddColumnSQL env tName field dialect of
        Inl e \<Rightarrow> Inl e
      | Inr stmt \<Rightarrow>
          Inr (stmt #
            (case foreignKey field of
               None \<Rightarrow> []
             | Some fk \<Rightarrow>
                 if dialect = POSTGRESQL then [addConstraintSQL tName (field_name field) fk]
                 else [])))"

definition removedFieldParts :: "string \<Rightarrow> Dialect \<Rightarrow> Field \<Rightarrow> string list" where
  "removedFieldParts tName dialect field =
     (case foreignKey field of
        None \<Rightarrow> []
      | Some fk \<Rightarrow>
          if dialect = POSTGRESQL then [dropConstraintSQL tName (field_name field)] else [])
     @ [dropColumnSQL tName (field_name field)]"

definition foreignKeyChangeParts :: "string \<Rightarrow> Dialect \<Rightarrow> Field \<Rightarrow> FieldChange \<Rightarrow> string list" where
  "foreignKeyChangeParts tName dialect field c =
     (case foreignKey_change c of
        None \<Rightarrow> []
      | Some (from, to) \<Rightarrow>
          if dialect = POSTGRESQL
          then (case from of None \<Rightarrow> [] | Some fk \<Rightarrow> [dropConstraintSQL tName (field_name field)])
               @ (case to of
                    None \<Rightarrow> []
                  | Some fk \<Rightarrow> [addConstraintSQL tName (field_name field) fk])
          else [])"

fun modifiedFieldsLoop ::
  "Env \<Rightarrow> string \<Rightarrow> Dialect \<Rightarrow> (Field \<times> FieldChange) list \<Rightarrow> nat
   \<Rightarrow> string + (string list \<times> nat)" where
  "modifiedFieldsLoop env tName dialect [] k = Inr ([], k)"
| "modifiedFieldsLoop env tName dialect ((field, c) # rest) k =
     (case generateAlterColumnSQL env k tName field c dialect of
        Inl e \<Rightarrow> Inl e
      | Inr (stmt, k') \<Rightarrow>
          (case modifiedFieldsLoop env tName dialect rest k' of
             Inl e \<Rightarrow> Inl e
           | Inr (ps, k'') \<Rightarrow>
               Inr (foreignKeyChangeParts tName dialect field c @ [stmt] @ ps, k'')))"

definition modificationParts ::
  "Env \<Rightarrow> Dialect \<Rightarrow> TableModification \<Rightarrow> nat \<Rightarrow> string + (string list \<times> nat)" where
  "modificationParts env dialect m k =
     (case mapE (addedFieldParts env (tableName m) dialect) (fieldsAdded m) of
        Inl e \<Rightarrow> Inl e
      | Inr aps \<Rightarrow>
          (case modifiedFieldsLoop env (tableName m) dialect (fieldsModified m) k of
             Inl e \<Rightarrow> Inl e
           | Inr (mps, k') \<Rightarrow>
               Inr (concat aps
                    @ concat (map (removedFieldParts (tableName m) dialect) (fieldsRemoved m))
                    @ mps, k')))"

fun modificationsLoop ::
  "Env \<Rightarrow> Dialect \<Rightarrow> TableModification list \<Rightarrow> nat \<Rightarrow> string + (string list \<times> nat)" where
  "modificationsLoop env dialect [] k = Inr ([], k)"
| "modificationsLoop env dialect (m # ms) k =
     (case modificationParts env dialect m k of
        Inl e \<Rightarrow> Inl e
      | Inr (ps, k') \<Rightarrow>
          (case modificationsLoop env dialect ms k' of
             Inl e \<Rightarrow> Inl e
           | Inr (qs, k'') \<Rightarrow> Inr (ps @ qs, k'')))"

definition generateMigrationFromDiff ::
  "Env \<Rightarrow> DatabaseDiff \<Rightarrow> DataModel \<Rightarrow> Dialect \<Rightarrow> string + MigrationResult" where
  "generateMigrationFromDiff env diff targetModel dialect =
     (let drops = map (\<lambda>t. dropTableSQL (table_name t)) (removed (diff_tables diff))
      in case mapE (\<lambda>t. generateCreateTableSQL env t dialect) (added (diff_tables diff)) of
           Inl e \<Rightarrow> Inl e
         | Inr creates \<Rightarrow>
         (case modificationsLoop env dialect (modified (diff_tables diff)) 0 of
            Inl e \<Rightarrow> Inl e
          | Inr (mods, k) \<Rightarrow>
          (case (if dialect = POSTGRESQL
                 then generateRLSPoliciesSQL env (diff_accessControl diff) targetModel
                 else Inr []) of
             Inl e \<Rightarrow> Inl e
           | Inr policies \<Rightarrow>
               Inr \<lparr> sql = joinParts (drops @ creates @ mods @ policies),
                     accessControlDiff = diff_accessControl diff \<rparr>)))"

section \<open>Example inputs\<close>

text \<open>The model \<open>simpleModel\<close> of the unit tests: one table \<open>users\<close>, open to every operation.\<close>

definition idField :: Field where
  "idField = \<lparr> field_name = ''id'', field_type = ''uuid'', nonNullable = Some True,
                primaryKey = Some True, field_default = None, foreignKey = None \<rparr>"

definition emailField :: Field where
  "emailField = \<lparr> field_name = ''email'', field_type = ''string'', nonNullable = Some True,
                   primaryKey = None, field_default = None, foreignKey = None \<rparr>"

definition usersTable :: Table where
  "usersTable =
     \<lparr> table_name = ''users'',
       table_fields = [idField, emailField],
       accessControl = \<lparr> ac_read = JBool True, ac_create = JBool True,
                         ac_update = JBool True, ac_delete = JBool True \<rparr> \<rparr>"

definition simpleModel :: DataModel where
  "simpleModel = \<lparr> tables = [usersTable] \<rparr>"

text \<open>
  A stand-in for the external compiler, enough to run the examples: it knows the call
  \<open>NOW()\<close> and the two boolean literals and rejects everything else. The clock reads
  42 at the first call and advances by one with each call; the runtime's texts are
  those of the V8 engine.
\<close>

definition exampleEnv :: Env where
  "exampleEnv =
     \<lparr> parseExpression =
         (\<lambda>e st. if e = JObj [(''$func'', JObj [(''NOW'', JArr [])])]
                  then Inr (''NOW()'', expressions st)
                  else Inl ''Unknown expression''),
       parseCondition =
         (\<lambda>c st. case c of
                    JBool b \<Rightarrow> Inr (if b then ''true'' else ''false'', expressions st)
                  | _ \<Rightarrow> Inl ''Unknown condition''),
       dateNow = (\<lambda>k. 42 + k),
       typeErrorMessage =
         (\<lambda>kind. case kind of
                    EntriesOfNull \<Rightarrow> ''Cannot convert undefined or null to object''
                  | MapOfNull \<Rightarrow> ''Cannot read properties of null (reading 'map')''
                  | MapNotAFunction \<Rightarrow> ''args.map is not a function''),
       nativeFunctionTail = (\<lambda>functionName. '' '' @ functionName @ ''() { [native code] }'') \<rparr>"

text \<open>The diff that holds one modification of one field and nothing else.\<close>

definition fieldModification :: "string \<Rightarrow> Field \<Rightarrow> FieldChange \<Rightarrow> TableModification" where
  "fieldModification tName field c =
     \<lparr> tableName = tName, fieldsAdded = [], fieldsRemoved = [],
       fieldsModified = [(field, c)], accessControlChanged = False \<rparr>"

definition fieldModDiff :: "string \<Rightarrow> Field \<Rightarrow> FieldChange \<Rightarrow> DatabaseDiff" where
  "fieldModDiff tName field c =
     \<lparr> diff_tables = \<lparr> added = [], removed = [], modified = [fieldModification tName field c] \<rparr>,
       diff_accessControl = \<lparr> acd_tables = [] \<rparr> \<rparr>"

definition noChange :: FieldChange where
  "noChange = \<lparr> type_change = None, nonNullable_change = None, primaryKey_change = None,
                 default_change = None, foreignKey_change = None \<rparr>"

definition retypeChange :: FieldChange where
  "retypeChange = noChange\<lparr>type_change := Some (''string'', ''number'')\<rparr>"

definition nullableChange :: FieldChange where
  "nullableChange = noChange\<lparr>nonNullable_change := Some (True, False)\<rparr>"

text \<open>
  The \<open>users\<close> table with the conditions of the integration tests: rows are read and
  updated by their owner only, and never deleted.
\<close>

definition ownerCondition :: json where
  "ownerCondition = JObj [(''id'', JObj [(''$eq'', JObj [(''$var'', JStr ''user_id'')])])]"

definition ownedModel :: DataModel where
  "ownedModel =
     \<lparr> tables = [usersTable\<lparr> accessControl :=
         \<lparr> ac_read = ownerCondition, ac_create = JBool True,
           ac_update = ownerCondition, ac_delete = JBool False \<rparr> \<rparr>] \<rparr>"

text \<open>What the bootstrap of \<open>simpleModel\<close> on PostgreSQL gives with the stand-in compiler.\<close>

definition simpleModelBootstrap :: MigrationResult where
  \<open>simpleModelBootstrap =
     \<lparr> sql = join (nl @ nl)
         [''CREATE TABLE "users" ('' @ nl
            @ ''  "id" UUID PRIMARY KEY,'' @ nl
            @ ''  "email" TEXT NOT NULL'' @ nl
            @ '');'' @ nl @ nl
            @ ''ALTER TABLE "users" ENABLE ROW LEVEL SECURITY;'',
          ''DROP POLICY IF EXISTS "users_read_policy" ON "users";'',
          ''DROP POLICY IF EXISTS "users_create_policy" ON "users";'',
          ''DROP POLICY IF EXISTS "users_update_policy" ON "users";'',
          ''DROP POLICY IF EXISTS "users_delete_policy" ON "users";'',
          ''CREATE POLICY "users_read_policy" ON "users" FOR SELECT USING (true);'',
          ''CREATE POLICY "users_create_policy" ON "users" FOR INSERT WITH CHECK (true);'',
          ''CREATE POLICY "users_update_policy" ON "users" FOR UPDATE USING (true);'',
          ''CREATE POLICY "users_delete_policy" ON "users" FOR DELETE USING (true);''],
       accessControlDiff =
         \<lparr> acd_tables =
             [\<lparr> ac_tableName = ''users'',
                changes = \<lparr> read_change = Some (JBool True, JBool True),
                            create_change = Some (JBool True, JBool True),
                            update_change = Some (JBool True, JBool True),
                            delete_change = Some (JBool True, JBool True) \<rparr> \<rparr>] \<rparr> \<rparr>\<close>

text \<open>
  Two snapshots of \<open>users\<close> with a \<open>created_at\<close> column, one without a default and
  one that defaults to the current time, as in the unit tests.
\<close>

definition nowCall :: json where
  "nowCall = JObj [(''$func'', JObj [(''now'', JArr [])])]"

definition createdAtField :: "json option \<Rightarrow> Field" where
  "createdAtField d =
     \<lparr> field_name = ''created_at'', field_type = ''datetime'', nonNullable = Some True,
       primaryKey = None, field_default = d, foreignKey = None \<rparr>"

definition timestampedModel :: "json option \<Rightarrow> DataModel" where
  "timestampedModel d =
     \<lparr> tables = [usersTable\<lparr> table_fields := [idField, emailField, createdAtField d] \<rparr>] \<rparr>"

definition nowDefaultChange :: FieldChange where
  "nowDefaultChange = noChange\<lparr>default_change := Some (None, Some nowCall)\<rparr>"

text \<open>A call the stand-in compiler does not know.\<close>

definition randomCall :: json where
  "randomCall = JObj [(''$func'', JObj [(''random'', JArr [])])]"

text \<open>A list of tables that is no snapshot: the name \<open>users\<close> occurs twice.\<close>

definition duplicateModel :: DataModel where
  "duplicateModel = \<lparr> tables = [usersTable, usersTable\<lparr> table_fields := [idField] \<rparr>] \<rparr>"

text \<open>A change of default to a call the stand-in compiler does not know.\<close>

definition randomDefaultChange :: FieldChange where
  "randomDefaultChange = noChange\<lparr>default_change := Some (None, Some randomCall)\<rparr>"

section \<open>Properties of the diff engine\<close>

lemma not_strictEq_refl:
  assumes "\<not> strictEq a a"
  shows "\<not> isNullish a \<and> typeof a = ''object''"
proof (cases a)
  case None
  with assms show ?thesis by simp
next
  case (Some v)
  with assms show ?thesis by (cases v) simp_all
qed

lemma deepEqual_refl_aux: "a = b \<Longrightarrow> deepEqual a b"
proof (induction a b rule: deepEqual.induct)
  case (1 a b)
  show ?case
  proof (cases "strictEq a b")
    case True
    then show ?thesis by (subst deepEqual.simps) simp
  next
    case False
    with 1(2) have obj: "\<not> isNullish a" "typeof a = ''object''"
      using not_strictEq_refl [of a] by simp_all
    have ih: "deepEqual (getProp (the a) key) (getProp (the b) key)"
      if "key \<in> set (keys (the a))" for key
      by (rule 1(1) [of "keys (the a)" "keys (the b)" key])
         (use False obj 1(2) that in simp_all)
    have "list_all (\<lambda>key. key \<in> set (keys (the a))
            \<and> deepEqual (getProp (the a) key) (getProp (the a) key)) (keys (the a))"
      using ih 1(2) by (simp add: list_all_iff)
    then show ?thesis
      using False obj 1(2) by (subst deepEqual.simps) (simp add: Let_def)
  qed
qed

lemma deepEqual_refl: "deepEqual a a"
  by (rule deepEqual_refl_aux) simp

lemma newMap_distinct:
  "distinct (map key xs) \<Longrightarrow> x \<in> set xs \<Longrightarrow> newMap (map (\<lambda>y. (key y, y)) xs) (key x) = Some x"
  unfolding newMap_def
  by (rule map_of_is_SomeI) (auto simp: rev_map [symmetric] comp_def distinct_map)

lemma newMap_None: "(newMap (map (\<lambda>y. (key y, y)) xs) k = None) = (k \<notin> key ` set xs)"
  unfolding newMap_def by (auto simp: map_of_eq_None_iff image_image rev_map [symmetric])

lemma fieldChanges_same: "hasFieldChanges (fieldChanges f f) = False"
  by (simp add: fieldChanges_def hasFieldChanges_def deepEqual_refl)

lemma fieldsModifiedLoop_same:
  "distinct (map field_name fs) \<Longrightarrow> set gs \<subseteq> set fs \<Longrightarrow>
   fieldsModifiedLoop (newMap (map (\<lambda>f. (field_name f, f)) fs)) gs = []"
  by (induction gs) (simp_all add: newMap_distinct fieldChanges_same)

lemma generateFieldDiff_same:
  "distinct (map field_name fs) \<Longrightarrow> generateFieldDiff fs fs = ([], [], [])"
  by (simp add: generateFieldDiff_def Let_def fieldsModifiedLoop_same newMap_None)

lemma modifiedLoop_same:
  "distinct (map table_name ts) \<Longrightarrow>
   \<forall>t \<in> set ts. distinct (map field_name (table_fields t)) \<Longrightarrow>
   set us \<subseteq> set ts \<Longrightarrow>
   modifiedLoop (newMap (map (\<lambda>t. (table_name t, t)) ts)) us = []"
  by (induction us) (simp_all add: newMap_distinct generateFieldDiff_same deepEqual_refl)

lemma accessControlLoop_same:
  "distinct (map table_name ts) \<Longrightarrow> set us \<subseteq> set ts \<Longrightarrow>
   accessControlLoop (newMap (map (\<lambda>t. (table_name t, t)) ts)) us = []"
  by (induction us)
     (simp_all add: newMap_distinct conditionChange_def hasAccessChanges_def deepEqual_refl)

text \<open>
  Claim C4, as stated, fails. Neither the schema validation nor the diff engine requires
  the names of a model to be distinct. When a table name occurs twice, \<open>Map\<close> keeps the
  last table of that name, so the first one is compared with the last and reported as
  modified: the diff of such a model with itself is not empty.
\<close>

theorem diff_self_duplicate_names_counterexample:
  "generateDatabaseDiff duplicateModel duplicateModel =
    \<lparr> diff_tables =
        \<lparr> added = [], removed = [],
          modified = [\<lparr> tableName = ''users'', fieldsAdded = [emailField], fieldsRemoved = [],
                        fieldsModified = [], accessControlChanged = False \<rparr>] \<rparr>,
      diff_accessControl = \<lparr> acd_tables = [] \<rparr> \<rparr>
   \<and> generateDatabaseDiff duplicateModel duplicateModel \<noteq>
    \<lparr> diff_tables = \<lparr> added = [], removed = [], modified = [] \<rparr>,
      diff_accessControl = \<lparr> acd_tables = [] \<rparr> \<rparr>"
  by code_simp

text \<open>
  Claim C4, amended. For every data model whose table names are pairwise distinct and
  whose tables each have pairwise distinct field names, the diff of the model with itself
  is empty: no added, removed or modified table and no access-control change.
\<close>

theorem diff_self_empty:
  assumes "distinct (map table_name (tables A))"
    and "\<forall>t \<in> set (tables A). distinct (map field_name (table_fields t))"
  shows "generateDatabaseDiff A A =
    \<lparr> diff_tables = \<lparr> added = [], removed = [], modified = [] \<rparr>,
      diff_accessControl = \<lparr> acd_tables = [] \<rparr> \<rparr>"
  using assms
  by (simp add: generateDatabaseDiff_def generateTableDiff_def generateAccessControlDiff_def
      Let_def modifiedLoop_same accessControlLoop_same newMap_None)

theorem diff_self_empty_witness:
  "distinct (map table_name (tables simpleModel))
   \<and> list_all (\<lambda>t. distinct (map field_name (table_fields t))) (tables simpleModel)
   \<and> generateDatabaseDiff simpleModel simpleModel =
       \<lparr> diff_tables = \<lparr> added = [], removed = [], modified = [] \<rparr>,
         diff_accessControl = \<lparr> acd_tables = [] \<rparr> \<rparr>"
proof -
  have d1: "distinct (map table_name (tables simpleModel))"
    by (simp add: simpleModel_def)
  have d2: "\<forall>t \<in> set (tables simpleModel). distinct (map field_name (table_fields t))"
    by (simp add: simpleModel_def usersTable_def idField_def emailField_def)
  show ?thesis using d1 d2 diff_self_empty [OF d1 d2] by (simp add: list_all_iff)
qed

text \<open>
  Claim C5. For all data models A and B, the names of the added tables, the names common
  to A and B, and the names of the removed tables together are exactly the table names of
  A and B, and no name is both added and removed.
\<close>

theorem diff_name_partition:
  "set (map table_name (added (diff_tables (generateDatabaseDiff A B))))
     \<union> (set (map table_name (tables A)) \<inter> set (map table_name (tables B)))
     \<union> set (map table_name (removed (diff_tables (generateDatabaseDiff A B))))
   = set (map table_name (tables A)) \<union> set (map table_name (tables B))
   \<and> set (map table_name (added (diff_tables (generateDatabaseDiff A B))))
     \<inter> set (map table_name (removed (diff_tables (generateDatabaseDiff A B)))) = {}"
  by (auto simp: generateDatabaseDiff_def generateTableDiff_def Let_def newMap_None)

section \<open>Properties of the migration synthesizer\<close>

subsection \<open>Runs of fallible steps\<close>

lemma mapE_Inr_mem:
  "mapE f xs = Inr ys \<Longrightarrow> x \<in> set xs \<Longrightarrow> \<exists>y. f x = Inr y \<and> y \<in> set ys"
  by (induction xs arbitrary: ys) (auto split: sum.splits)

lemma mapE_Inl:
  "mapE f xs = Inl e \<Longrightarrow> \<exists>x \<in> set xs. f x = Inl e"
  by (induction xs) (auto split: sum.splits)

lemma mapE_Inr_set:
  "mapE f xs = Inr ys \<Longrightarrow> y \<in> set ys \<Longrightarrow> \<exists>x \<in> set xs. f x = Inr y"
  by (induction xs arbitrary: ys) (auto split: sum.splits)

subsection \<open>Every field modification reaches the output\<close>

lemma modifiedFieldsLoop_mem:
  "modifiedFieldsLoop env tName d fms k = Inr (ps, k') \<Longrightarrow> (f, c) \<in> set fms \<Longrightarrow>
   \<exists>j s j'. generateAlterColumnSQL env j tName f c d = Inr (s, j') \<and> s \<in> set ps"
proof (induction fms arbitrary: k ps)
  case Nil
  then show ?case by simp
next
  case (Cons fm fms)
  obtain f0 c0 where fm: "fm = (f0, c0)" by (cases fm)
  from Cons.prems(1) fm obtain s0 k0 ps0 where
    a: "generateAlterColumnSQL env k tName f0 c0 d = Inr (s0, k0)"
    and l: "modifiedFieldsLoop env tName d fms k0 = Inr (ps0, k')"
    and ps: "ps = foreignKeyChangeParts tName d f0 c0 @ [s0] @ ps0"
    by (auto split: sum.splits prod.splits)
  show ?case
  proof (cases "(f, c) = fm")
    case True
    with fm a ps show ?thesis by auto
  next
    case False
    with Cons.prems(2) have "(f, c) \<in> set fms" by simp
    from Cons.IH [OF l this] ps show ?thesis by auto
  qed
qed

lemma modificationParts_mem:
  assumes "modificationParts env d m k = Inr (ps, k')" and "(f, c) \<in> set (fieldsModified m)"
  shows "\<exists>j s j'. generateAlterColumnSQL env j (tableName m) f c d = Inr (s, j') \<and> s \<in> set ps"
proof -
  from assms(1) obtain pre mps where
    l: "modifiedFieldsLoop env (tableName m) d (fieldsModified m) k = Inr (mps, k')"
    and ps: "ps = pre @ mps"
    unfolding modificationParts_def
    by (auto split: sum.splits prod.splits)
  from modifiedFieldsLoop_mem [OF l assms(2)] ps show ?thesis by auto
qed

lemma modificationsLoop_mem:
  "modificationsLoop env d ms k = Inr (ps, k') \<Longrightarrow> m \<in> set ms \<Longrightarrow>
   (f, c) \<in> set (fieldsModified m) \<Longrightarrow>
   \<exists>j s j'. generateAlterColumnSQL env j (tableName m) f c d = Inr (s, j') \<and> s \<in> set ps"
proof (induction ms arbitrary: k ps)
  case Nil
  then show ?case by simp
next
  case (Cons m0 ms)
  from Cons.prems(1) obtain ps0 k0 qs where
    a: "modificationParts env d m0 k = Inr (ps0, k0)"
    and l: "modificationsLoop env d ms k0 = Inr (qs, k')"
    and ps: "ps = ps0 @ qs"
    by (auto split: sum.splits prod.splits)
  show ?case
  proof (cases "m = m0")
    case True
    with modificationParts_mem [OF a] Cons.prems(3) ps show ?thesis by fastforce
  next
    case False
    with Cons.prems(2) have "m \<in> set ms" by simp
    from Cons.IH [OF l this Cons.prems(3)] ps show ?thesis by auto
  qed
qed

lemma migration_mem:
  assumes "generateMigrationFromDiff env diff model d = Inr r"
    and "m \<in> set (modified (diff_tables diff))"
    and "(f, c) \<in> set (fieldsModified m)"
  shows "\<exists>j s j' parts. generateAlterColumnSQL env j (tableName m) f c d = Inr (s, j')
           \<and> sql r = joinParts parts \<and> s \<in> set parts"
proof -
  from assms(1) obtain pre mods k policies where
    l: "modificationsLoop env d (modified (diff_tables diff)) 0 = Inr (mods, k)"
    and r: "sql r = joinParts (pre @ mods @ policies)"
    unfolding generateMigrationFromDiff_def Let_def
    by (fastforce split: sum.splits prod.splits simp: append_assoc [symmetric]
          simp del: append_assoc)
  from modificationsLoop_mem [OF l assms(2,3)] obtain j s j' where
    "generateAlterColumnSQL env j (tableName m) f c d = Inr (s, j')" "s \<in> set mods" by blast
  with r show ?thesis
    by (intro exI [of _ j] exI [of _ s] exI [of _ j'] exI [of _ "pre @ mods @ policies"]) simp
qed

lemma alter_sqlite:
  "isSqlite d \<Longrightarrow> generateAlterColumnSQL env k tName field c d =
     Inr (join nl (fst (typeChangeParts env k tName field c d)), snd (typeChangeParts env k tName field c d))"
  by (cases d)
     (auto simp: generateAlterColumnSQL_def alterColumnParts_def defaultChangeParts_def nullabilityParts_def
        isSqlite_def split: option.splits prod.splits)


subsection \<open>Type changes on the SQLite dialects\<close>

text \<open>
  The type text of a name that the type map inherits rather than holds, with the texts of
  the example runtime.
\<close>

lemma mapFieldTypeToSQL_inherited:
  \<open>mapFieldTypeToSQL exampleEnv ''toString'' SQLITE_MINIMAL
     = ''function toString() { [native code] }''
   \<and> mapFieldTypeToSQL exampleEnv ''constructor'' POSTGRESQL
     = ''function Object() { [native code] }''
   \<and> mapFieldTypeToSQL exampleEnv ''__proto__'' POSTGRESQL = ''[object Object]''
   \<and> mapFieldTypeToSQL exampleEnv ''varchar'' POSTGRESQL = ''TEXT''\<close>
  by code_simp

text \<open>
  Claim C1. On SQLITE_MINIMAL and SQLITE_EXTENSIONS, a field modification with a type
  change makes \<open>generateMigrationFromDiff\<close> emit for that field exactly four statements,
  in this order: ADD COLUMN of a temporary column of the new type, UPDATE that casts the
  original column into it, DROP COLUMN of the original, RENAME COLUMN of the temporary
  column to the original name. The temporary name is the field name, the clock reading
  and the suffix \<open>_new\<close>; the type text is what \<open>mapFieldTypeToSQL\<close> gives for the
  new type name, whatever that name is.
\<close>

theorem column_rebuild_four_statements:
  assumes "isSqlite dialect" and "type_change c = Some (from, to)"
    and "m \<in> set (modified (diff_tables diff))"
    and "(field, c) \<in> set (fieldsModified m)"
    and "generateMigrationFromDiff env diff model dialect = Inr r"
  shows "\<exists>j parts.
     (let tmp = quoted (field_name field @ ''_'' @ string_of_nat (dateNow env j) @ ''_new'');
          tbl = quoted (tableName m);
          col = quoted (field_name field);
          newType = mapFieldTypeToSQL env to dialect;
          block = join nl
            [''ALTER TABLE '' @ tbl @ '' ADD COLUMN '' @ tmp @ '' '' @ newType @ '';'',
             ''UPDATE '' @ tbl @ '' SET '' @ tmp @ '' = CAST('' @ col @ '' AS '' @ newType @ '');'',
             ''ALTER TABLE '' @ tbl @ '' DROP COLUMN '' @ col @ '';'',
             ''ALTER TABLE '' @ tbl @ '' RENAME COLUMN '' @ tmp @ '' TO '' @ col @ '';'']
      in generateAlterColumnSQL env j (tableName m) field c dialect = Inr (block, Suc j)
         \<and> sql r = joinParts parts \<and> block \<in> set parts)"
proof -
  from migration_mem [OF assms(5,3,4)] obtain j s j' parts where
    a: "generateAlterColumnSQL env j (tableName m) field c dialect = Inr (s, j')"
    and p: "sql r = joinParts parts" "s \<in> set parts" by blast
  from a assms(1,2) have
    "s = join nl (fst (typeChangeParts env j (tableName m) field c dialect))" "j' = Suc j"
    by (auto simp: alter_sqlite typeChangeParts_def isSqlite_def Let_def)
  with a p assms(1,2) show ?thesis
    apply (intro exI [of _ j] exI [of _ parts])
    apply (auto simp: typeChangeParts_def isSqlite_def Let_def rebuildColumnName_def)
    done
qed


theorem column_rebuild_four_statements_witness:
  \<open>generateMigrationFromDiff exampleEnv (fieldModDiff ''users'' emailField retypeChange)
     simpleModel SQLITE_MINIMAL
   = Inr \<lparr> sql = join nl
        [''ALTER TABLE "users" ADD COLUMN "email_42_new" REAL;'',
         ''UPDATE "users" SET "email_42_new" = CAST("email" AS REAL);'',
         ''ALTER TABLE "users" DROP COLUMN "email";'',
         ''ALTER TABLE "users" RENAME COLUMN "email_42_new" TO "email";''],
       accessControlDiff = \<lparr> acd_tables = [] \<rparr> \<rparr>
   \<and> (\<exists>j parts.
     (let tmp = quoted (field_name emailField @ ''_'' @ string_of_nat (dateNow exampleEnv j)
                        @ ''_new'');
          tbl = quoted (tableName (fieldModification ''users'' emailField retypeChange));
          col = quoted (field_name emailField);
          newType = mapFieldTypeToSQL exampleEnv ''number'' SQLITE_MINIMAL;
          block = join nl
            [''ALTER TABLE '' @ tbl @ '' ADD COLUMN '' @ tmp @ '' '' @ newType @ '';'',
             ''UPDATE '' @ tbl @ '' SET '' @ tmp @ '' = CAST('' @ col @ '' AS '' @ newType @ '');'',
             ''ALTER TABLE '' @ tbl @ '' DROP COLUMN '' @ col @ '';'',
             ''ALTER TABLE '' @ tbl @ '' RENAME COLUMN '' @ tmp @ '' TO '' @ col @ '';'']
      in generateAlterColumnSQL exampleEnv j
           (tableName (fieldModification ''users'' emailField retypeChange)) emailField
           retypeChange SQLITE_MINIMAL = Inr (block, Suc j)
         \<and> sql \<lparr> sql = join nl
               [''ALTER TABLE "users" ADD COLUMN "email_42_new" REAL;'',
                ''UPDATE "users" SET "email_42_new" = CAST("email" AS REAL);'',
                ''ALTER TABLE "users" DROP COLUMN "email";'',
                ''ALTER TABLE "users" RENAME COLUMN "email_42_new" TO "email";''],
              accessControlDiff = \<lparr> acd_tables = [] \<rparr> \<rparr> = joinParts parts
         \<and> block \<in> set parts))\<close>
proof -
  have e: \<open>generateMigrationFromDiff exampleEnv (fieldModDiff ''users'' emailField retypeChange)
     simpleModel SQLITE_MINIMAL
   = Inr \<lparr> sql = join nl
        [''ALTER TABLE "users" ADD COLUMN "email_42_new" REAL;'',
         ''UPDATE "users" SET "email_42_new" = CAST("email" AS REAL);'',
         ''ALTER TABLE "users" DROP COLUMN "email";'',
         ''ALTER TABLE "users" RENAME COLUMN "email_42_new" TO "email";''],
       accessControlDiff = \<lparr> acd_tables = [] \<rparr> \<rparr>\<close>
    by code_simp
  have h1: "isSqlite SQLITE_MINIMAL"
    by (simp add: isSqlite_def)
  have h2: "type_change retypeChange = Some (''string'', ''number'')"
    by (simp add: retypeChange_def noChange_def)
  have h3: "fieldModification ''users'' emailField retypeChange
              \<in> set (modified (diff_tables (fieldModDiff ''users'' emailField retypeChange)))"
    by (simp add: fieldModDiff_def)
  have h4: "(emailField, retypeChange)
              \<in> set (fieldsModified (fieldModification ''users'' emailField retypeChange))"
    by (simp add: fieldModification_def)
  show ?thesis
    by (rule conjI [OF e column_rebuild_four_statements [OF h1 h2 h3 h4 e]])
qed

subsection \<open>Nullability changes\<close>

lemma alter_postgres_nullability:
  assumes "generateAlterColumnSQL env j tName field c POSTGRESQL = Inr (s, j')"
    and "nonNullable_change c = Some (from, to)"
  shows "\<exists>ps. s = join nl ps \<and>
     ''ALTER TABLE '' @ quoted tName @ '' ALTER COLUMN '' @ quoted (field_name field)
       @ (if to then '' SET NOT NULL;'' else '' DROP NOT NULL;'') \<in> set ps"
proof -
  from assms(1) obtain tp dp where
    s: "s = join nl (tp @ nullabilityParts tName field c POSTGRESQL @ dp)"
    unfolding generateAlterColumnSQL_def alterColumnParts_def
    by (auto split: sum.splits prod.splits)
  have "''ALTER TABLE '' @ quoted tName @ '' ALTER COLUMN '' @ quoted (field_name field)
       @ (if to then '' SET NOT NULL;'' else '' DROP NOT NULL;'')
        \<in> set (nullabilityParts tName field c POSTGRESQL)"
    using assms(2) by (simp add: nullabilityParts_def)
  with s show ?thesis
    by (intro exI [of _ "tp @ nullabilityParts tName field c POSTGRESQL @ dp"]) simp
qed

lemma typeChangeParts_nullability:
  "typeChangeParts env k tName field (c\<lparr>nonNullable_change := x\<rparr>) d
     = typeChangeParts env k tName field c d"
  by (simp add: typeChangeParts_def)

lemma fieldModDiff_sqlite_empty:
  assumes "isSqlite d" and "type_change c = None"
  shows "generateMigrationFromDiff env (fieldModDiff tName field c) model d
           = Inr \<lparr> sql = [], accessControlDiff = \<lparr> acd_tables = [] \<rparr> \<rparr>"
proof -
  have a: "generateAlterColumnSQL env 0 tName field c d = Inr ([], 0)"
    using assms by (simp add: alter_sqlite typeChangeParts_def)
  have f: "foreignKeyChangeParts tName d field c = []"
    using assms(1) by (auto simp: foreignKeyChangeParts_def isSqlite_def split: option.splits)
  have d: "d \<noteq> POSTGRESQL" using assms(1) by (auto simp: isSqlite_def)
  show ?thesis
    using a f d
    by (simp add: generateMigrationFromDiff_def fieldModDiff_def fieldModification_def
        modificationParts_def joinParts_def)
qed

text \<open>
  Claim C8. A field modification with a nullability change yields a SET NOT NULL or
  DROP NOT NULL statement on PostgreSQL only. On the two SQLite dialects the change
  produces no statement: the text for the field is what it is without the change, and a
  migration that consists of this change alone is empty.
\<close>

theorem nullability_change_postgres_only:
  assumes "nonNullable_change c = Some (from, to)"
  shows "(m \<in> set (modified (diff_tables diff)) \<longrightarrow> (field, c) \<in> set (fieldsModified m) \<longrightarrow>
          generateMigrationFromDiff env diff model POSTGRESQL = Inr r \<longrightarrow>
          (\<exists>ps parts. sql r = joinParts parts \<and> join nl ps \<in> set parts \<and>
             ''ALTER TABLE '' @ quoted (tableName m) @ '' ALTER COLUMN ''
               @ quoted (field_name field)
               @ (if to then '' SET NOT NULL;'' else '' DROP NOT NULL;'') \<in> set ps))
       \<and> (isSqlite dialect \<longrightarrow>
            generateAlterColumnSQL env k tName field c dialect
              = generateAlterColumnSQL env k tName field (c\<lparr>nonNullable_change := None\<rparr>) dialect
            \<and> (type_change c = None \<longrightarrow>
                generateMigrationFromDiff env (fieldModDiff tName field c) model dialect
                  = Inr \<lparr> sql = [], accessControlDiff = \<lparr> acd_tables = [] \<rparr> \<rparr>))"
proof (intro conjI impI)
  assume "m \<in> set (modified (diff_tables diff))" "(field, c) \<in> set (fieldsModified m)"
    "generateMigrationFromDiff env diff model POSTGRESQL = Inr r"
  from migration_mem [OF this(3,1,2)] obtain j s j' parts where
    a: "generateAlterColumnSQL env j (tableName m) field c POSTGRESQL = Inr (s, j')"
    and p: "sql r = joinParts parts" "s \<in> set parts" by blast
  from alter_postgres_nullability [OF a assms] p
  show "\<exists>ps parts. sql r = joinParts parts \<and> join nl ps \<in> set parts \<and>
             ''ALTER TABLE '' @ quoted (tableName m) @ '' ALTER COLUMN ''
               @ quoted (field_name field)
               @ (if to then '' SET NOT NULL;'' else '' DROP NOT NULL;'') \<in> set ps"
    by blast
next
  assume "isSqlite dialect"
  then show "generateAlterColumnSQL env k tName field c dialect
              = generateAlterColumnSQL env k tName field (c\<lparr>nonNullable_change := None\<rparr>) dialect"
    by (simp add: alter_sqlite typeChangeParts_nullability)
next
  assume "isSqlite dialect" "type_change c = None"
  then show "generateMigrationFromDiff env (fieldModDiff tName field c) model dialect
                  = Inr \<lparr> sql = [], accessControlDiff = \<lparr> acd_tables = [] \<rparr> \<rparr>"
    by (rule fieldModDiff_sqlite_empty)
qed


theorem nullability_change_postgres_only_witness:
  \<open>generateMigrationFromDiff exampleEnv (fieldModDiff ''users'' emailField nullableChange)
     simpleModel POSTGRESQL
   = Inr \<lparr> sql = ''ALTER TABLE "users" ALTER COLUMN "email" DROP NOT NULL;'',
           accessControlDiff = \<lparr> acd_tables = [] \<rparr> \<rparr>
   \<and> (\<exists>ps parts.
         sql \<lparr> sql = ''ALTER TABLE "users" ALTER COLUMN "email" DROP NOT NULL;'',
               accessControlDiff = \<lparr> acd_tables = [] \<rparr> \<rparr> = joinParts parts
         \<and> join nl ps \<in> set parts
         \<and> ''ALTER TABLE '' @ quoted (tableName (fieldModification ''users'' emailField nullableChange))
             @ '' ALTER COLUMN '' @ quoted (field_name emailField)
             @ (if False then '' SET NOT NULL;'' else '' DROP NOT NULL;'') \<in> set ps)
   \<and> generateMigrationFromDiff exampleEnv (fieldModDiff ''users'' emailField nullableChange)
       simpleModel SQLITE_MINIMAL
     = Inr \<lparr> sql = [], accessControlDiff = \<lparr> acd_tables = [] \<rparr> \<rparr>\<close>
proof -
  have e: \<open>generateMigrationFromDiff exampleEnv (fieldModDiff ''users'' emailField nullableChange)
     simpleModel POSTGRESQL
   = Inr \<lparr> sql = ''ALTER TABLE "users" ALTER COLUMN "email" DROP NOT NULL;'',
           accessControlDiff = \<lparr> acd_tables = [] \<rparr> \<rparr>\<close>
    by code_simp
  have h0: "nonNullable_change nullableChange = Some (True, False)"
    by (simp add: nullableChange_def noChange_def)
  have h1: "isSqlite SQLITE_MINIMAL"
    by (simp add: isSqlite_def)
  have h2: "type_change nullableChange = None"
    by (simp add: nullableChange_def noChange_def)
  have h3: "fieldModification ''users'' emailField nullableChange
              \<in> set (modified (diff_tables (fieldModDiff ''users'' emailField nullableChange)))"
    by (simp add: fieldModDiff_def)
  have h4: "(emailField, nullableChange)
              \<in> set (fieldsModified (fieldModification ''users'' emailField nullableChange))"
    by (simp add: fieldModification_def)
  note t = nullability_change_postgres_only [OF h0]
  note p1 = t [THEN conjunct1, rule_format, OF h3 h4 e]
  note p2 = t [THEN conjunct2, rule_format, OF h1, THEN conjunct2, rule_format, OF h2]
  show ?thesis
    by (rule conjI [OF e conjI [OF p1 p2]])
qed

subsection \<open>Column clauses\<close>

lemma typeMap_not_clause: "map_of (typeMap d) t \<noteq> Some ''NOT NULL''"
  by (cases d) (auto simp: typeMap_def split: if_splits)

lemma mapFieldTypeToSQL_not_clause: "mapFieldTypeToSQL env t d \<noteq> ''NOT NULL''"
  using typeMap_not_clause [of d t]
  by (auto simp: mapFieldTypeToSQL_def split: option.splits)

lemma defaultClause_not_clause:
  "defaultClause env field d = Inr ps \<Longrightarrow> ''NOT NULL'' \<notin> set ps"
  by (auto simp: defaultClause_def split: option.splits sum.splits)

lemma quoted_not_clause: "quoted s \<noteq> ''NOT NULL''"
  by (simp add: quoted_def)

lemma createColumn_primaryKey:
  assumes "truthy (primaryKey field)" and "createColumn env dialect field = Inr col"
  shows "\<exists>parts d. defaultClause env field dialect = Inr d
           \<and> parts = [quoted (field_name field), mapFieldTypeToSQL env (field_type field) dialect,
                       ''PRIMARY KEY''] @ d
           \<and> col = ''  '' @ join '' '' parts
           \<and> ''NOT NULL'' \<notin> set parts"
proof -
  from assms(2) obtain d where d: "defaultClause env field dialect = Inr d"
    and col: "col = ''  '' @ join '' '' ([quoted (field_name field),
        mapFieldTypeToSQL env (field_type field) dialect, ''PRIMARY KEY''] @ d)"
    using assms(1)
    unfolding createColumn_def createColumnParts_def
    by (auto split: sum.splits)
  have "''NOT NULL'' \<notin> set ([quoted (field_name field),
        mapFieldTypeToSQL env (field_type field) dialect, ''PRIMARY KEY''] @ d)"
    using defaultClause_not_clause [OF d] mapFieldTypeToSQL_not_clause [of env "field_type field" dialect]
      quoted_not_clause [of "field_name field"]
    by auto
  with d col show ?thesis by blast
qed


lemma addColumn_notNull:
  assumes "truthy (nonNullable field)" and "generateAddColumnSQL env tName field dialect = Inr stmt"
  shows "\<exists>d. defaultClause env field dialect = Inr d
           \<and> stmt = join '' '' ([''ALTER TABLE '' @ quoted tName, ''ADD COLUMN'',
                 quoted (field_name field), mapFieldTypeToSQL env (field_type field) dialect,
                 ''NOT NULL''] @ d) @ '';''"
  using assms unfolding generateAddColumnSQL_def addColumnParts_def
  by (auto split: sum.splits)

text \<open>
  Claim C9. In a CREATE TABLE statement (the bootstrap path and the added-table path both
  produce it with \<open>generateCreateTableSQL\<close>), a field whose \<open>primaryKey\<close> is set gets
  the clause PRIMARY KEY and no NOT NULL clause, whatever its \<open>nonNullable\<close> flag says.
  A field added with ADD COLUMN gets NOT NULL whenever \<open>nonNullable\<close> is true,
  whatever its \<open>primaryKey\<close> flag says.
\<close>

theorem primary_key_and_not_null_clauses:
  "(generateCreateTableSQL env t dialect = Inr s \<longrightarrow> field \<in> set (table_fields t) \<longrightarrow>
    truthy (primaryKey field) \<longrightarrow>
      (\<exists>parts d cols.
          defaultClause env field dialect = Inr d
        \<and> parts = [quoted (field_name field), mapFieldTypeToSQL env (field_type field) dialect,
                    ''PRIMARY KEY''] @ d
        \<and> ''NOT NULL'' \<notin> set parts
        \<and> ''  '' @ join '' '' parts \<in> set cols
        \<and> s = ''CREATE TABLE '' @ quoted (table_name t) @ '' ('' @ nl
              @ join ('','' @ nl) (cols @ inlineForeignKeys dialect (table_fields t)) @ nl @ '');''
              @ (if dialect = POSTGRESQL then nl @ nl @ enableRLS (table_name t) else [])))
   \<and> (generateAddColumnSQL env tName field dialect = Inr stmt \<longrightarrow> truthy (nonNullable field) \<longrightarrow>
      (\<exists>d. defaultClause env field dialect = Inr d
         \<and> stmt = join '' '' ([''ALTER TABLE '' @ quoted tName, ''ADD COLUMN'',
                 quoted (field_name field), mapFieldTypeToSQL env (field_type field) dialect,
                 ''NOT NULL''] @ d) @ '';''))"
proof (intro conjI impI)
  assume g: "generateCreateTableSQL env t dialect = Inr s" and f: "field \<in> set (table_fields t)"
    and pk: "truthy (primaryKey field)"
  from g obtain cols where cols: "mapE (createColumn env dialect) (table_fields t) = Inr cols"
    and s: "s = ''CREATE TABLE '' @ quoted (table_name t) @ '' ('' @ nl
              @ join ('','' @ nl) (cols @ inlineForeignKeys dialect (table_fields t)) @ nl @ '');''
              @ (if dialect = POSTGRESQL then nl @ nl @ enableRLS (table_name t) else [])"
    unfolding generateCreateTableSQL_def Let_def
    by (auto split: sum.splits if_splits)
  from mapE_Inr_mem [OF cols f] obtain col where
    col: "createColumn env dialect field = Inr col" "col \<in> set cols" by blast
  from createColumn_primaryKey [OF pk col(1)] col(2) s
  show "\<exists>parts d cols.
          defaultClause env field dialect = Inr d
        \<and> parts = [quoted (field_name field), mapFieldTypeToSQL env (field_type field) dialect,
                    ''PRIMARY KEY''] @ d
        \<and> ''NOT NULL'' \<notin> set parts
        \<and> ''  '' @ join '' '' parts \<in> set cols
        \<and> s = ''CREATE TABLE '' @ quoted (table_name t) @ '' ('' @ nl
              @ join ('','' @ nl) (cols @ inlineForeignKeys dialect (table_fields t)) @ nl @ '');''
              @ (if dialect = POSTGRESQL then nl @ nl @ enableRLS (table_name t) else [])"
    by blast
next
  assume "generateAddColumnSQL env tName field dialect = Inr stmt" "truthy (nonNullable field)"
  from addColumn_notNull [OF this(2,1)]
  show "\<exists>d. defaultClause env field dialect = Inr d
         \<and> stmt = join '' '' ([''ALTER TABLE '' @ quoted tName, ''ADD COLUMN'',
                 quoted (field_name field), mapFieldTypeToSQL env (field_type field) dialect,
                 ''NOT NULL''] @ d) @ '';''" .
qed

theorem primary_key_and_not_null_clauses_witness:
  \<open>generateCreateTableSQL exampleEnv usersTable POSTGRESQL
     = Inr (''CREATE TABLE "users" ('' @ nl
            @ ''  "id" UUID PRIMARY KEY,'' @ nl
            @ ''  "email" TEXT NOT NULL'' @ nl
            @ '');'' @ nl @ nl
            @ ''ALTER TABLE "users" ENABLE ROW LEVEL SECURITY;'')
   \<and> generateAddColumnSQL exampleEnv ''users'' idField POSTGRESQL
     = Inr ''ALTER TABLE "users" ADD COLUMN "id" UUID NOT NULL;''
   \<and> (\<exists>parts d cols.
          defaultClause exampleEnv idField POSTGRESQL = Inr d
        \<and> parts = [quoted (field_name idField), mapFieldTypeToSQL exampleEnv (field_type idField) POSTGRESQL,
                    ''PRIMARY KEY''] @ d
        \<and> ''NOT NULL'' \<notin> set parts
        \<and> ''  '' @ join '' '' parts \<in> set cols
        \<and> ''CREATE TABLE "users" ('' @ nl
            @ ''  "id" UUID PRIMARY KEY,'' @ nl
            @ ''  "email" TEXT NOT NULL'' @ nl
            @ '');'' @ nl @ nl
            @ ''ALTER TABLE "users" ENABLE ROW LEVEL SECURITY;''
          = ''CREATE TABLE '' @ quoted (table_name usersTable) @ '' ('' @ nl
              @ join ('','' @ nl) (cols @ inlineForeignKeys POSTGRESQL (table_fields usersTable))
              @ nl @ '');''
              @ (if POSTGRESQL = POSTGRESQL then nl @ nl @ enableRLS (table_name usersTable)
                 else []))
   \<and> (\<exists>d. defaultClause exampleEnv idField POSTGRESQL = Inr d
         \<and> ''ALTER TABLE "users" ADD COLUMN "id" UUID NOT NULL;''
           = join '' '' ([''ALTER TABLE '' @ quoted ''users'', ''ADD COLUMN'',
                 quoted (field_name idField), mapFieldTypeToSQL exampleEnv (field_type idField) POSTGRESQL,
                 ''NOT NULL''] @ d) @ '';'')\<close>
proof -
  have e1: \<open>generateCreateTableSQL exampleEnv usersTable POSTGRESQL
     = Inr (''CREATE TABLE "users" ('' @ nl
            @ ''  "id" UUID PRIMARY KEY,'' @ nl
            @ ''  "email" TEXT NOT NULL'' @ nl
            @ '');'' @ nl @ nl
            @ ''ALTER TABLE "users" ENABLE ROW LEVEL SECURITY;'')\<close>
    by code_simp
  have e2: \<open>generateAddColumnSQL exampleEnv ''users'' idField POSTGRESQL
     = Inr ''ALTER TABLE "users" ADD COLUMN "id" UUID NOT NULL;''\<close>
    by code_simp
  have h1: "idField \<in> set (table_fields usersTable)"
    by (simp add: usersTable_def)
  have h2: "truthy (primaryKey idField)"
    by (simp add: idField_def truthy_def)
  have h3: "truthy (nonNullable idField)"
    by (simp add: idField_def truthy_def)
  note t = primary_key_and_not_null_clauses
    [of exampleEnv usersTable POSTGRESQL _ idField "''users''" _]
  note p1 = t [THEN conjunct1, rule_format, OF e1 h1 h2]
  note p2 = t [THEN conjunct2, rule_format, OF e2 h3]
  show ?thesis
    by (rule conjI [OF e1 conjI [OF e2 conjI [OF p1 p2]]])
qed

subsection \<open>Bootstrap on the SQLite dialects\<close>

lemma createColumn_Inl:
  "createColumn env d f = Inl e \<Longrightarrow>
   \<exists>v. field_default f = Some v \<and> formatDefaultValue env (Some v) d = Inl e"
  unfolding createColumn_def createColumnParts_def defaultClause_def
  by (auto split: sum.splits option.splits)

lemma generateCreateTableSQL_Inl:
  "generateCreateTableSQL env t d = Inl e \<Longrightarrow>
   \<exists>f \<in> set (table_fields t). \<exists>v. field_default f = Some v \<and> formatDefaultValue env (Some v) d = Inl e"
  unfolding generateCreateTableSQL_def Let_def
  by (auto split: sum.splits if_splits dest!: mapE_Inl createColumn_Inl)

text \<open>
  Claim C10. On SQLITE_MINIMAL and SQLITE_EXTENSIONS, \<open>generateInitialMigration\<close>
  returns an access-control diff with no table, whatever conditions the model declares.
  It returns unless a default expression of the model fails to compile; the conditions
  are never compiled.
\<close>

theorem initial_migration_sqlite_access_diff_empty:
  assumes "isSqlite dialect"
  shows "case generateInitialMigration env model dialect of
           Inr r \<Rightarrow> accessControlDiff r = \<lparr> acd_tables = [] \<rparr>
         | Inl e \<Rightarrow>
             (\<exists>t \<in> set (tables model). \<exists>f \<in> set (table_fields t). \<exists>v.
                field_default f = Some v \<and> formatDefaultValue env (Some v) dialect = Inl e)"
proof (cases "mapE (\<lambda>t. generateCreateTableSQL env t dialect) (tables model)")
  case (Inl e)
  from mapE_Inl [OF Inl] obtain t where
    t: "t \<in> set (tables model)" "generateCreateTableSQL env t dialect = Inl e" by blast
  from generateCreateTableSQL_Inl [OF t(2)] t(1) Inl show ?thesis
    by (auto simp: generateInitialMigration_def)
next
  case (Inr creates)
  with assms show ?thesis
    by (auto simp: generateInitialMigration_def isSqlite_def)
qed

theorem initial_migration_sqlite_access_diff_empty_witness:
  \<open>generateInitialMigration exampleEnv ownedModel SQLITE_MINIMAL
     = Inr \<lparr> sql = ''CREATE TABLE "users" ('' @ nl
                    @ ''  "id" TEXT PRIMARY KEY,'' @ nl
                    @ ''  "email" TEXT NOT NULL'' @ nl
                    @ '');'',
             accessControlDiff = \<lparr> acd_tables = [] \<rparr> \<rparr>
   \<and> (case generateInitialMigration exampleEnv ownedModel SQLITE_MINIMAL of
           Inr r \<Rightarrow> accessControlDiff r = \<lparr> acd_tables = [] \<rparr>
         | Inl e \<Rightarrow>
             (\<exists>t \<in> set (tables ownedModel). \<exists>f \<in> set (table_fields t). \<exists>v.
                field_default f = Some v
                \<and> formatDefaultValue exampleEnv (Some v) SQLITE_MINIMAL = Inl e))\<close>
proof -
  have e: \<open>generateInitialMigration exampleEnv ownedModel SQLITE_MINIMAL
     = Inr \<lparr> sql = ''CREATE TABLE "users" ('' @ nl
                    @ ''  "id" TEXT PRIMARY KEY,'' @ nl
                    @ ''  "email" TEXT NOT NULL'' @ nl
                    @ '');'',
             accessControlDiff = \<lparr> acd_tables = [] \<rparr> \<rparr>\<close>
    by code_simp
  have h: "isSqlite SQLITE_MINIMAL"
    by (simp add: isSqlite_def)
  show ?thesis
    by (rule conjI [OF e initial_migration_sqlite_access_diff_empty [OF h]])
qed

subsection \<open>Bootstrap on PostgreSQL\<close>

lemma policyBlock_Some:
  "policyBlock env (Some (a, b)) stmt st = Inr (ps, st') \<Longrightarrow>
   \<exists>c x. parseCondition env b st = Inr (c, x) \<and> ps = [stmt c] \<and> st' = st\<lparr>expressions := x\<rparr>"
  unfolding policyBlock_def by (auto split: sum.splits)

lemma tablePolicies_full:
  assumes "tablePolicies env model (fullAccessChange t) = Inr block"
  shows "\<exists>c1 x1 c2 x2 c3 x3 c4 x4.
     (let tName = table_name t;
          st0 = \<lparr> config = createParserConfig model POSTGRESQL, rootTable = tName,
                  expressions = [] \<rparr>
      in parseCondition env (ac_read (accessControl t)) st0 = Inr (c1, x1)
       \<and> parseCondition env (ac_create (accessControl t)) (st0\<lparr>expressions := x1\<rparr>) = Inr (c2, x2)
       \<and> parseCondition env (ac_update (accessControl t)) (st0\<lparr>expressions := x2\<rparr>) = Inr (c3, x3)
       \<and> parseCondition env (ac_delete (accessControl t)) (st0\<lparr>expressions := x3\<rparr>) = Inr (c4, x4)
       \<and> block =
           [dropPolicySQL tName ''read'', dropPolicySQL tName ''create'',
            dropPolicySQL tName ''update'', dropPolicySQL tName ''delete'',
            createPolicySQL tName ''read'' ''FOR SELECT USING'' c1,
            createPolicySQL tName ''create'' ''FOR INSERT WITH CHECK'' c2,
            createPolicySQL tName ''update'' ''FOR UPDATE USING'' c3,
            createPolicySQL tName ''delete'' ''FOR DELETE USING'' c4])"
proof -
  let ?n = "table_name t"
  let ?st0 = "\<lparr> config = createParserConfig model POSTGRESQL, rootTable = ?n, expressions = [] \<rparr>"
  let ?drops = "[dropPolicySQL ?n ''read'', dropPolicySQL ?n ''create'',
                 dropPolicySQL ?n ''update'', dropPolicySQL ?n ''delete'']"
  from assms obtain p1 s1 p2 s2 p3 s3 p4 s4 where
    b1: "policyBlock env (Some (defaultCondition, ac_read (accessControl t)))
           (createPolicySQL ?n ''read'' ''FOR SELECT USING'') ?st0 = Inr (p1, s1)"
    and b2: "policyBlock env (Some (defaultCondition, ac_create (accessControl t)))
           (createPolicySQL ?n ''create'' ''FOR INSERT WITH CHECK'') s1 = Inr (p2, s2)"
    and b3: "policyBlock env (Some (defaultCondition, ac_update (accessControl t)))
           (createPolicySQL ?n ''update'' ''FOR UPDATE USING'') s2 = Inr (p3, s3)"
    and b4: "policyBlock env (Some (defaultCondition, ac_delete (accessControl t)))
           (createPolicySQL ?n ''delete'' ''FOR DELETE USING'') s3 = Inr (p4, s4)"
    and blk: "block = ?drops @ p1 @ p2 @ p3 @ p4"
    unfolding tablePolicies_def fullAccessChange_def Let_def
    by (simp split: sum.splits prod.splits)
  from policyBlock_Some [OF b1] obtain c1 x1 where
    c1: "parseCondition env (ac_read (accessControl t)) ?st0 = Inr (c1, x1)"
      "p1 = [createPolicySQL ?n ''read'' ''FOR SELECT USING'' c1]" "s1 = ?st0\<lparr>expressions := x1\<rparr>"
    by blast
  from policyBlock_Some [OF b2] obtain c2 x2 where
    c2: "parseCondition env (ac_create (accessControl t)) s1 = Inr (c2, x2)"
      "p2 = [createPolicySQL ?n ''create'' ''FOR INSERT WITH CHECK'' c2]" "s2 = s1\<lparr>expressions := x2\<rparr>"
    by blast
  from policyBlock_Some [OF b3] obtain c3 x3 where
    c3: "parseCondition env (ac_update (accessControl t)) s2 = Inr (c3, x3)"
      "p3 = [createPolicySQL ?n ''update'' ''FOR UPDATE USING'' c3]" "s3 = s2\<lparr>expressions := x3\<rparr>"
    by blast
  from policyBlock_Some [OF b4] obtain c4 x4 where
    c4: "parseCondition env (ac_delete (accessControl t)) s3 = Inr (c4, x4)"
      "p4 = [createPolicySQL ?n ''delete'' ''FOR DELETE USING'' c4]"
    by blast
  show ?thesis
    apply (rule exI [of _ c1], rule exI [of _ x1], rule exI [of _ c2], rule exI [of _ x2])
    apply (rule exI [of _ c3], rule exI [of _ x3], rule exI [of _ c4], rule exI [of _ x4])
    using c1 c2 c3 c4 blk by (simp add: Let_def)
qed


lemma sublist_concat_mem: "b \<in> set bs \<Longrightarrow> sublist b (concat bs)"
proof -
  assume "b \<in> set bs"
  then obtain as cs where "bs = as @ b # cs" by (auto dest: split_list)
  then have "concat bs = concat as @ b @ concat cs" by simp
  then show ?thesis unfolding sublist_def by blast
qed

lemma sublist_in_suffix: "sublist b zs \<Longrightarrow> sublist b (xs @ ys @ zs)"
  unfolding sublist_def by (metis append.assoc)

lemma joinParts_nonempty:
  assumes "[] \<notin> set ps"
  shows "joinParts ps = join (nl @ nl) ps"
proof -
  from assms have "filter (\<lambda>p. p \<noteq> []) ps = ps"
    by (induction ps) auto
  then show ?thesis by (simp add: joinParts_def)
qed

lemma generateCreateTableSQL_postgres:
  "generateCreateTableSQL env t POSTGRESQL = Inr s \<Longrightarrow>
   \<exists>stmt. s = stmt @ nl @ nl @ enableRLS (table_name t)"
  unfolding generateCreateTableSQL_def Let_def
  by (auto split: sum.splits)

lemma enableRLS_nonempty: "enableRLS n \<noteq> []"
  by (simp add: enableRLS_def)

lemma creates_nonempty:
  "mapE (\<lambda>t. generateCreateTableSQL env t POSTGRESQL) ts = Inr creates \<Longrightarrow> [] \<notin> set creates"
proof (induction ts arbitrary: creates)
  case Nil
  then show ?case by simp
next
  case (Cons t ts)
  then show ?case
    by (auto split: sum.splits dest!: generateCreateTableSQL_postgres simp: enableRLS_nonempty)
qed

lemma initialForeignKeys_nonempty: "[] \<notin> set (initialForeignKeys ts)"
  by (auto simp: initialForeignKeys_def addConstraintSQL_def split: option.splits)

lemma policyBlock_nonempty:
  "policyBlock env ch (createPolicySQL n opName clause) st = Inr (ps, st') \<Longrightarrow> [] \<notin> set ps"
  unfolding policyBlock_def
  by (auto split: option.splits sum.splits simp: createPolicySQL_def)

lemma tablePolicies_nonempty:
  assumes "tablePolicies env model tc = Inr block"
  shows "[] \<notin> set block"
proof -
  let ?n = "ac_tableName tc"
  from assms obtain p1 s1 p2 s2 p3 s3 p4 s4 st0 where
    b1: "policyBlock env (read_change (changes tc))
           (createPolicySQL ?n ''read'' ''FOR SELECT USING'') st0 = Inr (p1, s1)"
    and b2: "policyBlock env (create_change (changes tc))
           (createPolicySQL ?n ''create'' ''FOR INSERT WITH CHECK'') s1 = Inr (p2, s2)"
    and b3: "policyBlock env (update_change (changes tc))
           (createPolicySQL ?n ''update'' ''FOR UPDATE USING'') s2 = Inr (p3, s3)"
    and b4: "policyBlock env (delete_change (changes tc))
           (createPolicySQL ?n ''delete'' ''FOR DELETE USING'') s3 = Inr (p4, s4)"
    and blk: "block = [dropPolicySQL ?n ''read'', dropPolicySQL ?n ''create'',
                 dropPolicySQL ?n ''update'', dropPolicySQL ?n ''delete''] @ p1 @ p2 @ p3 @ p4"
    unfolding tablePolicies_def Let_def
    by (simp split: sum.splits prod.splits)
  have "[] \<noteq> dropPolicySQL ?n x" for x by (simp add: dropPolicySQL_def)
  with policyBlock_nonempty [OF b1] policyBlock_nonempty [OF b2]
    policyBlock_nonempty [OF b3] policyBlock_nonempty [OF b4] blk
  show ?thesis by auto
qed

lemma policies_nonempty:
  assumes "generateRLSPoliciesSQL env acd model = Inr policies"
  shows "[] \<notin> set policies"
proof -
  from assms obtain blocks where b: "mapE (tablePolicies env model) (acd_tables acd) = Inr blocks"
    and p: "policies = concat blocks"
    unfolding generateRLSPoliciesSQL_def by (auto split: sum.splits)
  have "[] \<notin> set block" if "block \<in> set blocks" for block
    using mapE_Inr_set [OF b that] tablePolicies_nonempty by blast
  with p show ?thesis by auto
qed

text \<open>
  Claim C6. On PostgreSQL, \<open>generateInitialMigration\<close> emits for every table of the
  model an ENABLE ROW LEVEL SECURITY statement, the four DROP POLICY IF EXISTS statements
  (read, create, update, delete) and one CREATE POLICY statement for each of the four
  operations, each of which counts as changed from the permissive condition \<open>true\<close>;
  no earlier snapshot is involved. The statement is about a bootstrap that returns, that
  is, one whose default expressions and conditions all compile.
\<close>

theorem bootstrap_postgres_row_level_security:
  assumes "generateInitialMigration env model POSTGRESQL = Inr r"
    and "t \<in> set (tables model)"
  shows "\<exists>parts stmt c1 x1 c2 x2 c3 x3 c4 x4.
     (let tName = table_name t;
          st0 = \<lparr> config = createParserConfig model POSTGRESQL, rootTable = tName,
                  expressions = [] \<rparr>
      in sql r = join (nl @ nl) parts
       \<and> generateCreateTableSQL env t POSTGRESQL = Inr (stmt @ nl @ nl @ enableRLS tName)
       \<and> stmt @ nl @ nl @ enableRLS tName \<in> set parts
       \<and> \<lparr> ac_tableName = tName,
            changes = \<lparr> read_change = Some (JBool True, ac_read (accessControl t)),
                        create_change = Some (JBool True, ac_create (accessControl t)),
                        update_change = Some (JBool True, ac_update (accessControl t)),
                        delete_change = Some (JBool True, ac_delete (accessControl t)) \<rparr> \<rparr>
           \<in> set (acd_tables (accessControlDiff r))
       \<and> parseCondition env (ac_read (accessControl t)) st0 = Inr (c1, x1)
       \<and> parseCondition env (ac_create (accessControl t)) (st0\<lparr>expressions := x1\<rparr>) = Inr (c2, x2)
       \<and> parseCondition env (ac_update (accessControl t)) (st0\<lparr>expressions := x2\<rparr>) = Inr (c3, x3)
       \<and> parseCondition env (ac_delete (accessControl t)) (st0\<lparr>expressions := x3\<rparr>) = Inr (c4, x4)
       \<and> sublist
           [dropPolicySQL tName ''read'', dropPolicySQL tName ''create'',
            dropPolicySQL tName ''update'', dropPolicySQL tName ''delete'',
            createPolicySQL tName ''read'' ''FOR SELECT USING'' c1,
            createPolicySQL tName ''create'' ''FOR INSERT WITH CHECK'' c2,
            createPolicySQL tName ''update'' ''FOR UPDATE USING'' c3,
            createPolicySQL tName ''delete'' ''FOR DELETE USING'' c4] parts)"
proof -
  let ?acd = "generateAccessControlDiffForFullMigration (tables model)"
  from assms(1) obtain creates policies where
    c: "mapE (\<lambda>t. generateCreateTableSQL env t POSTGRESQL) (tables model) = Inr creates"
    and p: "generateRLSPoliciesSQL env ?acd model = Inr policies"
    and s: "sql r = joinParts (creates @ initialForeignKeys (tables model) @ policies)"
    and a: "accessControlDiff r = ?acd"
    unfolding generateInitialMigration_def Let_def
    by (auto split: sum.splits)
  let ?parts = "creates @ initialForeignKeys (tables model) @ policies"
  have ne: "[] \<notin> set ?parts"
    using creates_nonempty [OF c] initialForeignKeys_nonempty policies_nonempty [OF p] by simp
  have s': "sql r = join (nl @ nl) ?parts"
    using s joinParts_nonempty [OF ne] by simp
  from mapE_Inr_mem [OF c assms(2)] obtain cr where
    cr: "generateCreateTableSQL env t POSTGRESQL = Inr cr" "cr \<in> set creates" by blast
  from generateCreateTableSQL_postgres [OF cr(1)] obtain stmt where
    stmt: "cr = stmt @ nl @ nl @ enableRLS (table_name t)" by blast
  from p obtain blocks where
    b: "mapE (tablePolicies env model) (map fullAccessChange (tables model)) = Inr blocks"
    and pc: "policies = concat blocks"
    unfolding generateRLSPoliciesSQL_def generateAccessControlDiffForFullMigration_def
    by (auto split: sum.splits)
  have "fullAccessChange t \<in> set (map fullAccessChange (tables model))"
    using assms(2) by simp
  from mapE_Inr_mem [OF b this] obtain block where
    blk: "tablePolicies env model (fullAccessChange t) = Inr block" "block \<in> set blocks" by blast
  have sub: "sublist block ?parts"
    using sublist_concat_mem [OF blk(2)] pc sublist_in_suffix by blast
  have mem: "fullAccessChange t \<in> set (acd_tables (accessControlDiff r))"
    using a assms(2) by (simp add: generateAccessControlDiffForFullMigration_def)
  from tablePolicies_full [OF blk(1)] obtain c1 x1 c2 x2 c3 x3 c4 x4 where
    f: "(let tName = table_name t;
          st0 = \<lparr> config = createParserConfig model POSTGRESQL, rootTable = tName,
                  expressions = [] \<rparr>
      in parseCondition env (ac_read (accessControl t)) st0 = Inr (c1, x1)
       \<and> parseCondition env (ac_create (accessControl t)) (st0\<lparr>expressions := x1\<rparr>) = Inr (c2, x2)
       \<and> parseCondition env (ac_update (accessControl t)) (st0\<lparr>expressions := x2\<rparr>) = Inr (c3, x3)
       \<and> parseCondition env (ac_delete (accessControl t)) (st0\<lparr>expressions := x3\<rparr>) = Inr (c4, x4)
       \<and> block =
           [dropPolicySQL tName ''read'', dropPolicySQL tName ''create'',
            dropPolicySQL tName ''update'', dropPolicySQL tName ''delete'',
            createPolicySQL tName ''read'' ''FOR SELECT USING'' c1,
            createPolicySQL tName ''create'' ''FOR INSERT WITH CHECK'' c2,
            createPolicySQL tName ''update'' ''FOR UPDATE USING'' c3,
            createPolicySQL tName ''delete'' ''FOR DELETE USING'' c4])"
    by blast
  show ?thesis
    apply (rule exI [of _ ?parts], rule exI [of _ stmt])
    apply (rule exI [of _ c1], rule exI [of _ x1], rule exI [of _ c2], rule exI [of _ x2])
    apply (rule exI [of _ c3], rule exI [of _ x3], rule exI [of _ c4], rule exI [of _ x4])
    using s' cr stmt mem f sub
    by (simp add: Let_def fullAccessChange_def defaultCondition_def)
qed


theorem bootstrap_postgres_row_level_security_witness:
  "generateInitialMigration exampleEnv simpleModel POSTGRESQL = Inr simpleModelBootstrap
   \<and> (\<exists>parts stmt c1 x1 c2 x2 c3 x3 c4 x4.
     (let tName = table_name usersTable;
          st0 = \<lparr> config = createParserConfig simpleModel POSTGRESQL, rootTable = tName,
                  expressions = [] \<rparr>
      in sql simpleModelBootstrap = join (nl @ nl) parts
       \<and> generateCreateTableSQL exampleEnv usersTable POSTGRESQL
           = Inr (stmt @ nl @ nl @ enableRLS tName)
       \<and> stmt @ nl @ nl @ enableRLS tName \<in> set parts
       \<and> \<lparr> ac_tableName = tName,
            changes = \<lparr> read_change = Some (JBool True, ac_read (accessControl usersTable)),
                        create_change = Some (JBool True, ac_create (accessControl usersTable)),
                        update_change = Some (JBool True, ac_update (accessControl usersTable)),
                        delete_change = Some (JBool True, ac_delete (accessControl usersTable)) \<rparr> \<rparr>
           \<in> set (acd_tables (accessControlDiff simpleModelBootstrap))
       \<and> parseCondition exampleEnv (ac_read (accessControl usersTable)) st0 = Inr (c1, x1)
       \<and> parseCondition exampleEnv (ac_create (accessControl usersTable))
             (st0\<lparr>expressions := x1\<rparr>) = Inr (c2, x2)
       \<and> parseCondition exampleEnv (ac_update (accessControl usersTable))
             (st0\<lparr>expressions := x2\<rparr>) = Inr (c3, x3)
       \<and> parseCondition exampleEnv (ac_delete (accessControl usersTable))
             (st0\<lparr>expressions := x3\<rparr>) = Inr (c4, x4)
       \<and> sublist
           [dropPolicySQL tName ''read'', dropPolicySQL tName ''create'',
            dropPolicySQL tName ''update'', dropPolicySQL tName ''delete'',
            createPolicySQL tName ''read'' ''FOR SELECT USING'' c1,
            createPolicySQL tName ''create'' ''FOR INSERT WITH CHECK'' c2,
            createPolicySQL tName ''update'' ''FOR UPDATE USING'' c3,
            createPolicySQL tName ''delete'' ''FOR DELETE USING'' c4] parts))"
proof -
  have e: "generateInitialMigration exampleEnv simpleModel POSTGRESQL = Inr simpleModelBootstrap"
    by code_simp
  have h: "usersTable \<in> set (tables simpleModel)"
    by (simp add: simpleModel_def)
  show ?thesis
    by (rule conjI [OF e bootstrap_postgres_row_level_security [OF e h]])
qed

subsection \<open>Default changes\<close>

lemma normalize_now:
  assumes "toLowerCase fn = ''now''"
  shows "normalizeExpression (JObj [(''$func'', JObj [(fn, JArr [])])])
           = Inr (JObj [(''$func'', JObj [(''NOW'', JArr [])])])"
  using assms by simp

lemma alter_postgres_now_default:
  assumes "toLowerCase fn = ''now''"
    and "c = noChange\<lparr>default_change := Some (None, Some (JObj [(''$func'', JObj [(fn, JArr [])])]))\<rparr>"
  shows "generateAlterColumnSQL env j tName field c POSTGRESQL =
     (case parseExpression env (JObj [(''$func'', JObj [(''NOW'', JArr [])])]) (emptyState POSTGRESQL) of
        Inl message \<Rightarrow> Inl (failedToParse message)
      | Inr (d, x) \<Rightarrow>
          Inr (''ALTER TABLE '' @ quoted tName @ '' ALTER COLUMN '' @ quoted (field_name field)
               @ '' SET DEFAULT '' @ d @ '';'', j))"
  using assms(2) normalize_now [OF assms(1)]
  by (simp add: generateAlterColumnSQL_def alterColumnParts_def typeChangeParts_def
      nullabilityParts_def defaultChangeParts_def noChange_def formatComplex_def isSqlite_def
      split: sum.splits prod.splits)


lemma fieldModDiff_postgres_now_default:
  assumes "toLowerCase fn = ''now''"
    and "c = noChange\<lparr>default_change := Some (None, Some (JObj [(''$func'', JObj [(fn, JArr [])])]))\<rparr>"
  shows "generateMigrationFromDiff env (fieldModDiff tName field c) model POSTGRESQL =
     (case parseExpression env (JObj [(''$func'', JObj [(''NOW'', JArr [])])]) (emptyState POSTGRESQL) of
        Inl message \<Rightarrow> Inl (failedToParse message)
      | Inr (d, x) \<Rightarrow>
          Inr \<lparr> sql = ''ALTER TABLE '' @ quoted tName @ '' ALTER COLUMN ''
                        @ quoted (field_name field) @ '' SET DEFAULT '' @ d @ '';'',
                accessControlDiff = \<lparr> acd_tables = [] \<rparr> \<rparr>)"
proof -
  have f: "foreignKeyChangeParts tName POSTGRESQL field c = []"
    using assms(2) by (simp add: foreignKeyChangeParts_def noChange_def)
  have p: "generateRLSPoliciesSQL env \<lparr> acd_tables = [] \<rparr> model = Inr []"
    by (simp add: generateRLSPoliciesSQL_def)
  show ?thesis
    using f p alter_postgres_now_default [OF assms, of env 0 tName field]
    by (simp add: generateMigrationFromDiff_def fieldModDiff_def fieldModification_def
        modificationParts_def joinParts_def split: sum.splits prod.splits)
qed

text \<open>
  Claim C7, as stated, fails on the SQLite dialects: for two snapshots that differ only in
  the default of \<open>created_at\<close> (absent before, \<open>{$func: {now: []}}\<close> after), the diff
  is that single default change and the migration text is empty, with no DEFAULT clause.
\<close>

theorem default_change_sqlite_counterexample:
  "generateDatabaseDiff (timestampedModel None) (timestampedModel (Some nowCall))
     = fieldModDiff ''users'' (createdAtField (Some nowCall)) nowDefaultChange
   \<and> generateMigrationFromDiff exampleEnv
         (generateDatabaseDiff (timestampedModel None) (timestampedModel (Some nowCall)))
         (timestampedModel (Some nowCall)) SQLITE_MINIMAL
     = Inr \<lparr> sql = [], accessControlDiff = \<lparr> acd_tables = [] \<rparr> \<rparr>"
  by code_simp

text \<open>
  Claim C7, amended. On PostgreSQL, a field modification whose only change is the
  default, from absent to a zero-argument call of \<open>now\<close> in any letter case, makes
  \<open>generateMigrationFromDiff\<close> emit ALTER COLUMN ... SET DEFAULT followed by what the
  compiler returns for the call with the upper-case name, \<open>{$func: {NOW: []}}\<close>; a
  migration of that change alone is this one statement, or fails with the compiler's
  message when the compiler rejects the call. On the SQLite dialects the change emits
  nothing.
\<close>

theorem now_default_change_postgres:
  assumes "toLowerCase fn = ''now''"
    and "c = noChange\<lparr>default_change := Some (None, Some (JObj [(''$func'', JObj [(fn, JArr [])])]))\<rparr>"
  shows "(m \<in> set (modified (diff_tables diff)) \<longrightarrow> (field, c) \<in> set (fieldsModified m) \<longrightarrow>
          generateMigrationFromDiff env diff model POSTGRESQL = Inr r \<longrightarrow>
          (\<exists>d x parts.
              parseExpression env (JObj [(''$func'', JObj [(''NOW'', JArr [])])])
                (emptyState POSTGRESQL) = Inr (d, x)
            \<and> sql r = joinParts parts
            \<and> ''ALTER TABLE '' @ quoted (tableName m) @ '' ALTER COLUMN ''
                 @ quoted (field_name field) @ '' SET DEFAULT '' @ d @ '';'' \<in> set parts))
       \<and> generateMigrationFromDiff env (fieldModDiff tName field c) model POSTGRESQL =
           (case parseExpression env (JObj [(''$func'', JObj [(''NOW'', JArr [])])])
                   (emptyState POSTGRESQL) of
              Inl message \<Rightarrow> Inl (failedToParse message)
            | Inr (d, x) \<Rightarrow>
                Inr \<lparr> sql = ''ALTER TABLE '' @ quoted tName @ '' ALTER COLUMN ''
                              @ quoted (field_name field) @ '' SET DEFAULT '' @ d @ '';'',
                      accessControlDiff = \<lparr> acd_tables = [] \<rparr> \<rparr>)
       \<and> (isSqlite dialect \<longrightarrow>
            generateMigrationFromDiff env (fieldModDiff tName field c) model dialect
              = Inr \<lparr> sql = [], accessControlDiff = \<lparr> acd_tables = [] \<rparr> \<rparr>)"
proof (intro conjI impI)
  assume "m \<in> set (modified (diff_tables diff))" "(field, c) \<in> set (fieldsModified m)"
    "generateMigrationFromDiff env diff model POSTGRESQL = Inr r"
  from migration_mem [OF this(3,1,2)] obtain j s j' parts where
    a: "generateAlterColumnSQL env j (tableName m) field c POSTGRESQL = Inr (s, j')"
    and p: "sql r = joinParts parts" "s \<in> set parts" by blast
  from a alter_postgres_now_default [OF assms, of env j "tableName m" field]
  obtain d x where
    "parseExpression env (JObj [(''$func'', JObj [(''NOW'', JArr [])])])
       (emptyState POSTGRESQL) = Inr (d, x)"
    "s = ''ALTER TABLE '' @ quoted (tableName m) @ '' ALTER COLUMN ''
           @ quoted (field_name field) @ '' SET DEFAULT '' @ d @ '';''"
    by (auto split: sum.splits prod.splits)
  with p show "\<exists>d x parts.
              parseExpression env (JObj [(''$func'', JObj [(''NOW'', JArr [])])])
                (emptyState POSTGRESQL) = Inr (d, x)
            \<and> sql r = joinParts parts
            \<and> ''ALTER TABLE '' @ quoted (tableName m) @ '' ALTER COLUMN ''
                 @ quoted (field_name field) @ '' SET DEFAULT '' @ d @ '';'' \<in> set parts"
    by blast
next
  show "generateMigrationFromDiff env (fieldModDiff tName field c) model POSTGRESQL =
           (case parseExpression env (JObj [(''$func'', JObj [(''NOW'', JArr [])])])
                   (emptyState POSTGRESQL) of
              Inl message \<Rightarrow> Inl (failedToParse message)
            | Inr (d, x) \<Rightarrow>
                Inr \<lparr> sql = ''ALTER TABLE '' @ quoted tName @ '' ALTER COLUMN ''
                              @ quoted (field_name field) @ '' SET DEFAULT '' @ d @ '';'',
                      accessControlDiff = \<lparr> acd_tables = [] \<rparr> \<rparr>)"
    by (rule fieldModDiff_postgres_now_default [OF assms])
next
  assume "isSqlite dialect"
  moreover have "type_change c = None" using assms(2) by (simp add: noChange_def)
  ultimately show "generateMigrationFromDiff env (fieldModDiff tName field c) model dialect
              = Inr \<lparr> sql = [], accessControlDiff = \<lparr> acd_tables = [] \<rparr> \<rparr>"
    by (rule fieldModDiff_sqlite_empty)
qed

theorem now_default_change_postgres_witness:
  \<open>generateMigrationFromDiff exampleEnv
      (generateDatabaseDiff (timestampedModel None) (timestampedModel (Some nowCall)))
      (timestampedModel (Some nowCall)) POSTGRESQL
    = Inr \<lparr> sql = ''ALTER TABLE "users" ALTER COLUMN "created_at" SET DEFAULT NOW();'',
            accessControlDiff = \<lparr> acd_tables = [] \<rparr> \<rparr>
   \<and> (\<exists>d x parts.
          parseExpression exampleEnv (JObj [(''$func'', JObj [(''NOW'', JArr [])])])
            (emptyState POSTGRESQL) = Inr (d, x)
        \<and> sql \<lparr> sql = ''ALTER TABLE "users" ALTER COLUMN "created_at" SET DEFAULT NOW();'',
                accessControlDiff = \<lparr> acd_tables = [] \<rparr> \<rparr> = joinParts parts
        \<and> ''ALTER TABLE ''
             @ quoted (tableName (fieldModification ''users'' (createdAtField (Some nowCall))
                                     nowDefaultChange))
             @ '' ALTER COLUMN '' @ quoted (field_name (createdAtField (Some nowCall)))
             @ '' SET DEFAULT '' @ d @ '';'' \<in> set parts)
   \<and> generateMigrationFromDiff exampleEnv
       (fieldModDiff ''users'' (createdAtField (Some nowCall)) nowDefaultChange)
       (timestampedModel (Some nowCall)) SQLITE_EXTENSIONS
     = Inr \<lparr> sql = [], accessControlDiff = \<lparr> acd_tables = [] \<rparr> \<rparr>\<close>
proof -
  have d: "generateDatabaseDiff (timestampedModel None) (timestampedModel (Some nowCall))
     = fieldModDiff ''users'' (createdAtField (Some nowCall)) nowDefaultChange"
    by code_simp
  have e: \<open>generateMigrationFromDiff exampleEnv
      (generateDatabaseDiff (timestampedModel None) (timestampedModel (Some nowCall)))
      (timestampedModel (Some nowCall)) POSTGRESQL
    = Inr \<lparr> sql = ''ALTER TABLE "users" ALTER COLUMN "created_at" SET DEFAULT NOW();'',
            accessControlDiff = \<lparr> acd_tables = [] \<rparr> \<rparr>\<close>
    by code_simp
  have h1: "toLowerCase ''now'' = ''now''"
    by code_simp
  have h2: "nowDefaultChange
      = noChange\<lparr>default_change := Some (None, Some (JObj [(''$func'', JObj [(''now'', JArr [])])]))\<rparr>"
    by (simp add: nowDefaultChange_def nowCall_def)
  have h3: "fieldModification ''users'' (createdAtField (Some nowCall)) nowDefaultChange
      \<in> set (modified (diff_tables
            (generateDatabaseDiff (timestampedModel None) (timestampedModel (Some nowCall)))))"
    unfolding d by (simp add: fieldModDiff_def)
  have h4: "(createdAtField (Some nowCall), nowDefaultChange)
      \<in> set (fieldsModified
            (fieldModification ''users'' (createdAtField (Some nowCall)) nowDefaultChange))"
    by (simp add: fieldModification_def)
  have h5: "isSqlite SQLITE_EXTENSIONS"
    by (simp add: isSqlite_def)
  note t = now_default_change_postgres [OF h1 h2]
  note p1 = t [THEN conjunct1, rule_format, OF h3 h4 e]
  note p3 = t [THEN conjunct2, THEN conjunct2, rule_format, OF h5]
  show ?thesis
    by (rule conjI [OF e conjI [OF p1 p3]])
qed

subsection \<open>Dependence on the clock\<close>

text \<open>
  Claim C2, as stated, fails for \<open>generateMigrationFromDiff\<close>: with the same diff, target
  model, dialect and compiler, a type change on a SQLite dialect gives different SQL text
  when the clock reads 42 and when it reads 43, because the temporary column is named
  after \<open>Date.now()\<close>.
\<close>

theorem clock_dependence_counterexample:
  \<open>generateMigrationFromDiff (exampleEnv\<lparr>dateNow := (\<lambda>k. 42)\<rparr>)
      (fieldModDiff ''users'' emailField retypeChange) simpleModel SQLITE_MINIMAL
    = Inr \<lparr> sql = join nl
        [''ALTER TABLE "users" ADD COLUMN "email_42_new" REAL;'',
         ''UPDATE "users" SET "email_42_new" = CAST("email" AS REAL);'',
         ''ALTER TABLE "users" DROP COLUMN "email";'',
         ''ALTER TABLE "users" RENAME COLUMN "email_42_new" TO "email";''],
       accessControlDiff = \<lparr> acd_tables = [] \<rparr> \<rparr>
   \<and> generateMigrationFromDiff (exampleEnv\<lparr>dateNow := (\<lambda>k. 43)\<rparr>)
      (fieldModDiff ''users'' emailField retypeChange) simpleModel SQLITE_MINIMAL
    = Inr \<lparr> sql = join nl
        [''ALTER TABLE "users" ADD COLUMN "email_43_new" REAL;'',
         ''UPDATE "users" SET "email_43_new" = CAST("email" AS REAL);'',
         ''ALTER TABLE "users" DROP COLUMN "email";'',
         ''ALTER TABLE "users" RENAME COLUMN "email_43_new" TO "email";''],
       accessControlDiff = \<lparr> acd_tables = [] \<rparr> \<rparr>
   \<and> generateMigrationFromDiff (exampleEnv\<lparr>dateNow := (\<lambda>k. 42)\<rparr>)
      (fieldModDiff ''users'' emailField retypeChange) simpleModel SQLITE_MINIMAL
    \<noteq> generateMigrationFromDiff (exampleEnv\<lparr>dateNow := (\<lambda>k. 43)\<rparr>)
      (fieldModDiff ''users'' emailField retypeChange) simpleModel SQLITE_MINIMAL\<close>
proof -
  have e1: \<open>generateMigrationFromDiff (exampleEnv\<lparr>dateNow := (\<lambda>k. 42)\<rparr>)
      (fieldModDiff ''users'' emailField retypeChange) simpleModel SQLITE_MINIMAL
    = Inr \<lparr> sql = join nl
        [''ALTER TABLE "users" ADD COLUMN "email_42_new" REAL;'',
         ''UPDATE "users" SET "email_42_new" = CAST("email" AS REAL);'',
         ''ALTER TABLE "users" DROP COLUMN "email";'',
         ''ALTER TABLE "users" RENAME COLUMN "email_42_new" TO "email";''],
       accessControlDiff = \<lparr> acd_tables = [] \<rparr> \<rparr>\<close>
    by code_simp
  have e2: \<open>generateMigrationFromDiff (exampleEnv\<lparr>dateNow := (\<lambda>k. 43)\<rparr>)
      (fieldModDiff ''users'' emailField retypeChange) simpleModel SQLITE_MINIMAL
    = Inr \<lparr> sql = join nl
        [''ALTER TABLE "users" ADD COLUMN "email_43_new" REAL;'',
         ''UPDATE "users" SET "email_43_new" = CAST("email" AS REAL);'',
         ''ALTER TABLE "users" DROP COLUMN "email";'',
         ''ALTER TABLE "users" RENAME COLUMN "email_43_new" TO "email";''],
       accessControlDiff = \<lparr> acd_tables = [] \<rparr> \<rparr>\<close>
    by code_simp
  have ne: \<open>generateMigrationFromDiff (exampleEnv\<lparr>dateNow := (\<lambda>k. 42)\<rparr>)
      (fieldModDiff ''users'' emailField retypeChange) simpleModel SQLITE_MINIMAL
    \<noteq> generateMigrationFromDiff (exampleEnv\<lparr>dateNow := (\<lambda>k. 43)\<rparr>)
      (fieldModDiff ''users'' emailField retypeChange) simpleModel SQLITE_MINIMAL\<close>
    unfolding e1 e2 by (simp add: nl_def)
  show ?thesis
    by (rule conjI [OF e1 conjI [OF e2 ne]])
qed


lemma clock_update_fields:
  "parseExpression (env\<lparr>dateNow := clk\<rparr>) = parseExpression env"
  "parseCondition (env\<lparr>dateNow := clk\<rparr>) = parseCondition env"
  "typeErrorMessage (env\<lparr>dateNow := clk\<rparr>) = typeErrorMessage env"
  "nativeFunctionTail (env\<lparr>dateNow := clk\<rparr>) = nativeFunctionTail env"
  by simp_all

lemma mapFieldTypeToSQL_clock:
  "mapFieldTypeToSQL (env\<lparr>dateNow := clk\<rparr>) t d = mapFieldTypeToSQL env t d"
  unfolding mapFieldTypeToSQL_def clock_update_fields by (rule refl)

lemma formatDefaultValue_clock:
  "formatDefaultValue (env\<lparr>dateNow := clk\<rparr>) v d = formatDefaultValue env v d"
proof -
  have c: "formatComplex (env\<lparr>dateNow := clk\<rparr>) = formatComplex env"
    by (intro ext) (unfold formatComplex_def clock_update_fields, rule refl)
  show ?thesis
  proof (cases v)
    case None
    then show ?thesis by simp
  next
    case (Some j)
    then show ?thesis using c by (cases j) simp_all
  qed
qed

lemma defaultClause_clock:
  "defaultClause (env\<lparr>dateNow := clk\<rparr>) f d = defaultClause env f d"
  unfolding defaultClause_def formatDefaultValue_clock by (rule refl)

lemma generateCreateTableSQL_clock:
  "generateCreateTableSQL (env\<lparr>dateNow := clk\<rparr>) t d = generateCreateTableSQL env t d"
  unfolding generateCreateTableSQL_def createColumn_def createColumnParts_def
    defaultClause_clock mapFieldTypeToSQL_clock
  by (rule refl)

lemma generateAddColumnSQL_clock:
  "generateAddColumnSQL (env\<lparr>dateNow := clk\<rparr>) n f d = generateAddColumnSQL env n f d"
  unfolding generateAddColumnSQL_def addColumnParts_def defaultClause_clock
    mapFieldTypeToSQL_clock
  by (rule refl)

lemma generateRLSPoliciesSQL_clock:
  "generateRLSPoliciesSQL (env\<lparr>dateNow := clk\<rparr>) acd model
     = generateRLSPoliciesSQL env acd model"
  unfolding generateRLSPoliciesSQL_def tablePolicies_def policyBlock_def clock_update_fields
  by (rule refl)

lemma generateAlterColumnSQL_clock:
  assumes "d = POSTGRESQL \<or> type_change c = None"
  shows "generateAlterColumnSQL (env\<lparr>dateNow := clk\<rparr>) k n f c d
           = generateAlterColumnSQL env k n f c d"
proof -
  have t: "typeChangeParts (env\<lparr>dateNow := clk\<rparr>) k n f c d = typeChangeParts env k n f c d"
    using assms
    by (auto simp: typeChangeParts_def mapFieldTypeToSQL_clock split: option.splits)
  have "defaultChangeParts (env\<lparr>dateNow := clk\<rparr>) n f c d = defaultChangeParts env n f c d"
    unfolding defaultChangeParts_def formatDefaultValue_clock by (rule refl)
  with t show ?thesis
    by (simp add: generateAlterColumnSQL_def alterColumnParts_def)
qed

lemma modifiedFieldsLoop_clock:
  assumes "d = POSTGRESQL \<or> (\<forall>(f, c) \<in> set fms. type_change c = None)"
  shows "modifiedFieldsLoop (env\<lparr>dateNow := clk\<rparr>) n d fms k
           = modifiedFieldsLoop env n d fms k"
  using assms
proof (induction fms arbitrary: k)
  case Nil
  then show ?case by simp
next
  case (Cons fm fms)
  obtain f c where fm: "fm = (f, c)" by (cases fm)
  from Cons.prems fm have a: "d = POSTGRESQL \<or> type_change c = None" by auto
  from Cons.prems have r: "d = POSTGRESQL \<or> (\<forall>(f, c) \<in> set fms. type_change c = None)" by auto
  show ?case
    using fm generateAlterColumnSQL_clock [OF a] Cons.IH [OF r]
    by (simp split: sum.splits prod.splits)
qed

lemma modificationsLoop_clock:
  assumes "d = POSTGRESQL
    \<or> (\<forall>m \<in> set ms. \<forall>(f, c) \<in> set (fieldsModified m). type_change c = None)"
  shows "modificationsLoop (env\<lparr>dateNow := clk\<rparr>) d ms k = modificationsLoop env d ms k"
  using assms
proof (induction ms arbitrary: k)
  case Nil
  then show ?case by simp
next
  case (Cons m ms)
  from Cons.prems
  have a: "d = POSTGRESQL \<or> (\<forall>(f, c) \<in> set (fieldsModified m). type_change c = None)"
    by auto
  from Cons.prems
  have r: "d = POSTGRESQL
    \<or> (\<forall>m \<in> set ms. \<forall>(f, c) \<in> set (fieldsModified m). type_change c = None)"
    by auto
  have "modificationParts (env\<lparr>dateNow := clk\<rparr>) d m k = modificationParts env d m k"
    unfolding modificationParts_def addedFieldParts_def
      generateAddColumnSQL_clock modifiedFieldsLoop_clock [OF a]
    by (rule refl)
  then show ?case using Cons.IH [OF r] by (simp split: sum.splits prod.splits)
qed

text \<open>
  Claim C2, amended. \<open>generateDatabaseDiff\<close> takes nothing but the two models, and
  \<open>generateInitialMigration\<close> never reads the clock: with the same compiler, equal
  inputs give equal results whatever the clock reads. The same holds for
  \<open>generateMigrationFromDiff\<close> on PostgreSQL and, on the SQLite dialects, for every diff
  without a type change. Only the name of the temporary column of a type change on a
  SQLite dialect depends on the time of the call.
\<close>

theorem deterministic_up_to_clock:
  "generateInitialMigration (env\<lparr>dateNow := clk\<rparr>) model dialect
     = generateInitialMigration env model dialect
    \<and> (dialect = POSTGRESQL
         \<or> (\<forall>m \<in> set (modified (diff_tables diff)).
              \<forall>(f, c) \<in> set (fieldsModified m). type_change c = None)
        \<longrightarrow> generateMigrationFromDiff (env\<lparr>dateNow := clk\<rparr>) diff model dialect
            = generateMigrationFromDiff env diff model dialect)"
proof (intro conjI impI)
  show "generateInitialMigration (env\<lparr>dateNow := clk\<rparr>) model dialect
     = generateInitialMigration env model dialect"
    unfolding generateInitialMigration_def generateCreateTableSQL_clock
      generateRLSPoliciesSQL_clock
    by (rule refl)
next
  assume a: "dialect = POSTGRESQL
         \<or> (\<forall>m \<in> set (modified (diff_tables diff)).
              \<forall>(f, c) \<in> set (fieldsModified m). type_change c = None)"
  show "generateMigrationFromDiff (env\<lparr>dateNow := clk\<rparr>) diff model dialect
            = generateMigrationFromDiff env diff model dialect"
    unfolding generateMigrationFromDiff_def generateCreateTableSQL_clock
      generateRLSPoliciesSQL_clock modificationsLoop_clock [OF a]
    by (rule refl)
qed

theorem deterministic_up_to_clock_witness:
  \<open>generateInitialMigration (exampleEnv\<lparr>dateNow := (\<lambda>k. 1000)\<rparr>) simpleModel POSTGRESQL
     = generateInitialMigration exampleEnv simpleModel POSTGRESQL
   \<and> generateMigrationFromDiff (exampleEnv\<lparr>dateNow := (\<lambda>k. 1000)\<rparr>)
       (fieldModDiff ''users'' emailField retypeChange) simpleModel POSTGRESQL
     = generateMigrationFromDiff exampleEnv
       (fieldModDiff ''users'' emailField retypeChange) simpleModel POSTGRESQL
   \<and> generateMigrationFromDiff exampleEnv
       (fieldModDiff ''users'' emailField retypeChange) simpleModel POSTGRESQL
     = Inr \<lparr> sql = ''ALTER TABLE "users" ALTER COLUMN "email" TYPE NUMERIC;'',
             accessControlDiff = \<lparr> acd_tables = [] \<rparr> \<rparr>\<close>
proof -
  have h3: "POSTGRESQL = POSTGRESQL
     \<or> (\<forall>m \<in> set (modified (diff_tables (fieldModDiff ''users'' emailField retypeChange))).
          \<forall>(f, c) \<in> set (fieldsModified m). type_change c = None)"
    by simp
  have e: \<open>generateMigrationFromDiff exampleEnv
       (fieldModDiff ''users'' emailField retypeChange) simpleModel POSTGRESQL
     = Inr \<lparr> sql = ''ALTER TABLE "users" ALTER COLUMN "email" TYPE NUMERIC;'',
             accessControlDiff = \<lparr> acd_tables = [] \<rparr> \<rparr>\<close>
    by code_simp
  note t = deterministic_up_to_clock [where env = exampleEnv and clk = "\<lambda>k. 1000"
      and model = simpleModel and dialect = POSTGRESQL
      and diff = "fieldModDiff ''users'' emailField retypeChange"]
  note p1 = t [THEN conjunct1]
  note p2 = t [THEN conjunct2, rule_format, OF h3]
  show ?thesis
    by (rule conjI [OF p1 conjI [OF p2 e]])
qed

subsection \<open>Where an error comes from\<close>

lemma formatDefaultValue_Inl:
  assumes "formatDefaultValue env (Some v) d = Inl e"
  shows "(\<exists>nv msg. normalizeExpression v = Inr nv
            \<and> parseExpression env nv (emptyState d) = Inl msg
            \<and> e = ''Failed to parse expression: '' @ msg)
         \<or> (\<exists>kind. normalizeExpression v = Inl kind
            \<and> e = ''Failed to parse expression: '' @ typeErrorMessage env kind)"
proof -
  have c: "formatComplex env v d = Inl e \<Longrightarrow> ?thesis"
    unfolding formatComplex_def failedToParse_def
    by (auto split: sum.splits prod.splits if_splits)
  from assms c show ?thesis by (cases v) (auto split: if_splits)
qed

lemma defaultClause_Inl:
  "defaultClause env f d = Inl e \<Longrightarrow>
   \<exists>v. field_default f = Some v \<and> formatDefaultValue env (Some v) d = Inl e"
  unfolding defaultClause_def by (auto split: option.splits sum.splits)

lemma generateAddColumnSQL_Inl:
  "generateAddColumnSQL env n f d = Inl e \<Longrightarrow>
   \<exists>v. field_default f = Some v \<and> formatDefaultValue env (Some v) d = Inl e"
  unfolding generateAddColumnSQL_def addColumnParts_def
  by (auto split: sum.splits dest: defaultClause_Inl)

lemma generateAlterColumnSQL_Inl:
  "generateAlterColumnSQL env k n f c d = Inl e \<Longrightarrow>
   d = POSTGRESQL \<and> (\<exists>old v. default_change c = Some (old, Some v)
                          \<and> formatDefaultValue env (Some v) d = Inl e)"
  unfolding generateAlterColumnSQL_def alterColumnParts_def defaultChangeParts_def
  by (auto split: sum.splits prod.splits option.splits if_splits)

lemma modifiedFieldsLoop_Inl:
  "modifiedFieldsLoop env n d fms k = Inl e \<Longrightarrow>
   d = POSTGRESQL \<and> (\<exists>f c old v. (f, c) \<in> set fms \<and> default_change c = Some (old, Some v)
                          \<and> formatDefaultValue env (Some v) d = Inl e)"
proof (induction fms arbitrary: k)
  case Nil
  then show ?case by simp
next
  case (Cons fm fms)
  obtain f c where fm: "fm = (f, c)" by (cases fm)
  show ?case
  proof (cases "generateAlterColumnSQL env k n f c d")
    case (Inl e')
    with Cons.prems fm have "e' = e" by simp
    with Inl generateAlterColumnSQL_Inl [of env k n f c d e] fm show ?thesis by auto
  next
    case (Inr r)
    obtain s k' where r: "r = (s, k')" by (cases r)
    from Cons.prems fm Inr r have "modifiedFieldsLoop env n d fms k' = Inl e"
      by (auto split: sum.splits)
    from Cons.IH [OF this] show ?thesis by auto
  qed
qed

lemma modificationParts_Inl:
  assumes "modificationParts env d m k = Inl e"
  shows "(\<exists>f v. f \<in> set (fieldsAdded m) \<and> field_default f = Some v
            \<and> formatDefaultValue env (Some v) d = Inl e)
       \<or> (d = POSTGRESQL \<and> (\<exists>f c old v. (f, c) \<in> set (fieldsModified m)
            \<and> default_change c = Some (old, Some v)
            \<and> formatDefaultValue env (Some v) d = Inl e))"
proof (cases "mapE (addedFieldParts env (tableName m) d) (fieldsAdded m)")
  case (Inl e')
  with assms have "e' = e" by (simp add: modificationParts_def)
  with mapE_Inl [OF Inl] obtain f where
    f: "f \<in> set (fieldsAdded m)" "addedFieldParts env (tableName m) d f = Inl e" by blast
  then have "generateAddColumnSQL env (tableName m) f d = Inl e"
    by (auto simp: addedFieldParts_def split: sum.splits)
  from generateAddColumnSQL_Inl [OF this] f(1) show ?thesis by blast
next
  case (Inr aps)
  with assms have "modifiedFieldsLoop env (tableName m) d (fieldsModified m) k = Inl e"
    by (auto simp: modificationParts_def split: sum.splits)
  from modifiedFieldsLoop_Inl [OF this] show ?thesis by blast
qed

lemma modificationsLoop_Inl:
  "modificationsLoop env d ms k = Inl e \<Longrightarrow>
   \<exists>m. m \<in> set ms \<and>
     ((\<exists>f v. f \<in> set (fieldsAdded m) \<and> field_default f = Some v
            \<and> formatDefaultValue env (Some v) d = Inl e)
       \<or> (d = POSTGRESQL \<and> (\<exists>f c old v. (f, c) \<in> set (fieldsModified m)
            \<and> default_change c = Some (old, Some v)
            \<and> formatDefaultValue env (Some v) d = Inl e)))"
proof (induction ms arbitrary: k)
  case Nil
  then show ?case by simp
next
  case (Cons m ms)
  show ?case
  proof (cases "modificationParts env d m k")
    case (Inl e')
    with Cons.prems have "e' = e" by simp
    with Inl have "modificationParts env d m k = Inl e" by simp
    from modificationParts_Inl [OF this] show ?thesis
      by (intro exI [of _ m]) simp
  next
    case (Inr r)
    obtain ps k' where r: "r = (ps, k')" by (cases r)
    from Cons.prems Inr r have "modificationsLoop env d ms k' = Inl e"
      by (auto split: sum.splits)
    from Cons.IH [OF this] obtain m' where "m' \<in> set ms"
      "(\<exists>f v. f \<in> set (fieldsAdded m') \<and> field_default f = Some v
            \<and> formatDefaultValue env (Some v) d = Inl e)
       \<or> (d = POSTGRESQL \<and> (\<exists>f c old v. (f, c) \<in> set (fieldsModified m')
            \<and> default_change c = Some (old, Some v)
            \<and> formatDefaultValue env (Some v) d = Inl e))" by blast
    then show ?thesis by (intro exI [of _ m']) simp
  qed
qed

lemma policyBlock_Inl:
  assumes "policyBlock env ch stmt st = Inl e"
  shows "\<exists>old cond. ch = Some (old, cond) \<and> parseCondition env cond st = Inl e"
proof (cases ch)
  case None
  with assms show ?thesis by (simp add: policyBlock_def)
next
  case (Some ft)
  obtain a b where ft: "ft = (a, b)" by (cases ft)
  with assms Some have "parseCondition env b st = Inl e"
    by (auto simp: policyBlock_def split: sum.splits)
  with Some ft show ?thesis by blast
qed

lemma policyBlock_state:
  "policyBlock env ch stmt st = Inr (ps, st') \<Longrightarrow> \<exists>x. st' = st\<lparr>expressions := x\<rparr>"
proof (cases ch)
  case None
  assume "policyBlock env ch stmt st = Inr (ps, st')"
  with None have "st' = st" by (simp add: policyBlock_def)
  then have "st' = st\<lparr>expressions := expressions st\<rparr>" by simp
  then show ?thesis by blast
next
  case (Some ft)
  assume a: "policyBlock env ch stmt st = Inr (ps, st')"
  obtain a' b where "ft = (a', b)" by (cases ft)
  with a Some show ?thesis by (auto simp: policyBlock_def split: sum.splits)
qed

lemma policyBlock_next:
  assumes "policyBlock env ch stmt \<lparr> config = cfg, rootTable = n, expressions = x \<rparr> = Inr (ps, st')"
  shows "\<exists>y. st' = \<lparr> config = cfg, rootTable = n, expressions = y \<rparr>"
  using policyBlock_state [OF assms] by auto

lemma tablePolicies_Inl:
  assumes "tablePolicies env model tc = Inl e"
  shows "\<exists>old cond x.
      Some (old, cond) \<in> {read_change (changes tc), create_change (changes tc),
                            update_change (changes tc), delete_change (changes tc)}
    \<and> parseCondition env cond
         \<lparr> config = createParserConfig model POSTGRESQL, rootTable = ac_tableName tc,
           expressions = x \<rparr> = Inl e"
proof -
  let ?n = "ac_tableName tc"
  let ?S = "\<lambda>x. \<lparr> config = createParserConfig model POSTGRESQL, rootTable = ?n, expressions = x \<rparr>"
  have found: ?thesis
    if "policyBlock env ch stmt (?S x) = Inl e"
      and "ch \<in> {read_change (changes tc), create_change (changes tc),
                  update_change (changes tc), delete_change (changes tc)}" for ch stmt x
  proof -
    from policyBlock_Inl [OF that(1)] obtain old cond where
      "ch = Some (old, cond)" "parseCondition env cond (?S x) = Inl e" by blast
    with that(2) show ?thesis
      by (intro exI [of _ old] exI [of _ cond] exI [of _ x]) simp
  qed
  show ?thesis
  proof (cases "policyBlock env (read_change (changes tc))
                  (createPolicySQL ?n ''read'' ''FOR SELECT USING'') (?S [])")
    case (Inl e')
    with assms have "e' = e" by (simp add: tablePolicies_def)
    with Inl found [of "read_change (changes tc)" _ "[]"] show ?thesis by simp
  next
    case (Inr r1)
    note b1 = Inr
    obtain p1 s1 where r1: "r1 = (p1, s1)" by (cases r1)
    from policyBlock_next b1 r1 obtain x1 where s1: "s1 = ?S x1" by blast
    show ?thesis
    proof (cases "policyBlock env (create_change (changes tc))
                    (createPolicySQL ?n ''create'' ''FOR INSERT WITH CHECK'') s1")
      case (Inl e')
      with assms b1 r1 have "e' = e" by (simp add: tablePolicies_def)
      with Inl s1 found [of "create_change (changes tc)" _ x1] show ?thesis by simp
    next
      case (Inr r2)
      note b2 = Inr
      obtain p2 s2 where r2: "r2 = (p2, s2)" by (cases r2)
      from policyBlock_next b2 r2 s1 obtain x2 where s2: "s2 = ?S x2" by blast
      show ?thesis
      proof (cases "policyBlock env (update_change (changes tc))
                      (createPolicySQL ?n ''update'' ''FOR UPDATE USING'') s2")
        case (Inl e')
        with assms b1 r1 b2 r2 have "e' = e" by (simp add: tablePolicies_def)
        with Inl s2 found [of "update_change (changes tc)" _ x2] show ?thesis by simp
      next
        case (Inr r3)
        note b3 = Inr
        obtain p3 s3 where r3: "r3 = (p3, s3)" by (cases r3)
        from policyBlock_next b3 r3 s2 obtain x3 where s3: "s3 = ?S x3" by blast
        from assms b1 r1 b2 r2 b3 r3
        have "policyBlock env (delete_change (changes tc))
                (createPolicySQL ?n ''delete'' ''FOR DELETE USING'') s3 = Inl e"
          by (auto simp: tablePolicies_def Let_def split: sum.splits prod.splits)
        with s3 found [of "delete_change (changes tc)" _ x3] show ?thesis by simp
      qed
    qed
  qed
qed

lemma generateRLSPoliciesSQL_Inl:
  assumes "generateRLSPoliciesSQL env acd model = Inl e"
  shows "\<exists>tc old cond x. tc \<in> set (acd_tables acd)
    \<and> Some (old, cond) \<in> {read_change (changes tc), create_change (changes tc),
                            update_change (changes tc), delete_change (changes tc)}
    \<and> parseCondition env cond
         \<lparr> config = createParserConfig model POSTGRESQL, rootTable = ac_tableName tc,
           expressions = x \<rparr> = Inl e"
proof -
  from assms have "mapE (tablePolicies env model) (acd_tables acd) = Inl e"
    by (auto simp: generateRLSPoliciesSQL_def split: sum.splits)
  from mapE_Inl [OF this] obtain tc where
    tc: "tc \<in> set (acd_tables acd)" "tablePolicies env model tc = Inl e" by blast
  from tablePolicies_Inl [OF tc(2)] tc(1) show ?thesis by blast
qed

lemma generateInitialMigration_Inl:
  assumes "generateInitialMigration env model dialect = Inl err"
  shows "(\<exists>t f x. t \<in> set (tables model) \<and> f \<in> set (table_fields t)
              \<and> field_default f = Some x
              \<and> formatDefaultValue env (Some x) dialect = Inl err)
        \<or> (dialect = POSTGRESQL
            \<and> (\<exists>t c st. t \<in> set (tables model)
                  \<and> c \<in> {ac_read (accessControl t), ac_create (accessControl t),
                           ac_update (accessControl t), ac_delete (accessControl t)}
                  \<and> parseCondition env c
                       \<lparr> config = createParserConfig model POSTGRESQL,
                         rootTable = table_name t, expressions = st \<rparr> = Inl err))"
proof (cases "mapE (\<lambda>t. generateCreateTableSQL env t dialect) (tables model)")
  case (Inl e')
  with assms have "e' = err" by (simp add: generateInitialMigration_def)
  with mapE_Inl [OF Inl] obtain t where
    t: "t \<in> set (tables model)" "generateCreateTableSQL env t dialect = Inl err" by blast
  from generateCreateTableSQL_Inl [OF t(2)] t(1) show ?thesis by blast
next
  case (Inr creates)
  let ?acd = "generateAccessControlDiffForFullMigration (tables model)"
  from assms Inr have pg: "dialect = POSTGRESQL"
    and r: "generateRLSPoliciesSQL env ?acd model = Inl err"
    by (auto simp: generateInitialMigration_def Let_def split: if_splits sum.splits)
  from generateRLSPoliciesSQL_Inl [OF r] obtain tc before c st where
    tc: "tc \<in> set (acd_tables ?acd)"
    and ch: "Some (before, c) \<in> {read_change (changes tc), create_change (changes tc),
                            update_change (changes tc), delete_change (changes tc)}"
    and p: "parseCondition env c
         \<lparr> config = createParserConfig model POSTGRESQL, rootTable = ac_tableName tc,
           expressions = st \<rparr> = Inl err" by blast
  from tc obtain t where t: "t \<in> set (tables model)" "tc = fullAccessChange t"
    by (auto simp: generateAccessControlDiffForFullMigration_def)
  from ch t(2) have c: "c \<in> {ac_read (accessControl t), ac_create (accessControl t),
                           ac_update (accessControl t), ac_delete (accessControl t)}"
    by (auto simp: fullAccessChange_def)
  from p t(2) have "parseCondition env c
         \<lparr> config = createParserConfig model POSTGRESQL, rootTable = table_name t,
           expressions = st \<rparr> = Inl err"
    by (simp add: fullAccessChange_def)
  with pg t(1) c show ?thesis by blast
qed

lemma generateMigrationFromDiff_Inl:
  assumes "generateMigrationFromDiff env diff model dialect = Inl err"
  shows "(\<exists>t f x. t \<in> set (added (diff_tables diff)) \<and> f \<in> set (table_fields t)
              \<and> field_default f = Some x
              \<and> formatDefaultValue env (Some x) dialect = Inl err)
        \<or> (\<exists>m f x. m \<in> set (modified (diff_tables diff)) \<and> f \<in> set (fieldsAdded m)
              \<and> field_default f = Some x
              \<and> formatDefaultValue env (Some x) dialect = Inl err)
        \<or> (dialect = POSTGRESQL
            \<and> (\<exists>m f ch before x. m \<in> set (modified (diff_tables diff))
                  \<and> (f, ch) \<in> set (fieldsModified m)
                  \<and> default_change ch = Some (before, Some x)
                  \<and> formatDefaultValue env (Some x) dialect = Inl err))
        \<or> (dialect = POSTGRESQL
            \<and> (\<exists>ta before c st. ta \<in> set (acd_tables (diff_accessControl diff))
                  \<and> Some (before, c) \<in> {read_change (changes ta), create_change (changes ta),
                                         update_change (changes ta), delete_change (changes ta)}
                  \<and> parseCondition env c
                       \<lparr> config = createParserConfig model POSTGRESQL,
                         rootTable = ac_tableName ta, expressions = st \<rparr> = Inl err))"
proof (cases "mapE (\<lambda>t. generateCreateTableSQL env t dialect) (added (diff_tables diff))")
  case (Inl e')
  with assms have "e' = err" by (simp add: generateMigrationFromDiff_def)
  with mapE_Inl [OF Inl] obtain t where
    t: "t \<in> set (added (diff_tables diff))" "generateCreateTableSQL env t dialect = Inl err"
    by blast
  from generateCreateTableSQL_Inl [OF t(2)] t(1) show ?thesis by blast
next
  case (Inr creates)
  note c = Inr
  show ?thesis
  proof (cases "modificationsLoop env dialect (modified (diff_tables diff)) 0")
    case (Inl e')
    with assms c have "e' = err" by (simp add: generateMigrationFromDiff_def)
    with Inl have "modificationsLoop env dialect (modified (diff_tables diff)) 0 = Inl err"
      by simp
    from modificationsLoop_Inl [OF this] show ?thesis by blast
  next
    case (Inr r)
    obtain mods k where r: "r = (mods, k)" by (cases r)
    from assms c Inr r have pg: "dialect = POSTGRESQL"
      and p: "generateRLSPoliciesSQL env (diff_accessControl diff) model = Inl err"
      by (auto simp: generateMigrationFromDiff_def split: if_splits sum.splits)
    from generateRLSPoliciesSQL_Inl [OF p] pg show ?thesis by blast
  qed
qed

subsection \<open>A failing compilation ends the operation\<close>

lemma formatDefaultValue_fails:
  assumes "typeof (Some v) = ''object''" and "v \<noteq> JNull"
    and "normalizeExpression v = Inr nv"
    and "parseExpression env nv (emptyState d) = Inl msg"
  shows "formatDefaultValue env (Some v) d = Inl (failedToParse msg)"
  using assms by (cases v) (auto simp: formatComplex_def)

lemma mapE_isl: "x \<in> set xs \<Longrightarrow> isl (f x) \<Longrightarrow> isl (mapE f xs)"
  by (induction xs) (auto split: sum.splits)

lemma generateCreateTableSQL_isl:
  assumes "f \<in> set (table_fields t)" and "field_default f = Some v"
    and "isl (formatDefaultValue env (Some v) d)"
  shows "isl (generateCreateTableSQL env t d)"
proof -
  have "isl (createColumn env d f)"
    using assms(2,3)
    by (auto simp: createColumn_def createColumnParts_def defaultClause_def split: sum.splits)
  from mapE_isl [of f "table_fields t" "createColumn env d", OF assms(1) this] show ?thesis
    by (auto simp: generateCreateTableSQL_def split: sum.splits)
qed

lemma generateAddColumnSQL_isl:
  assumes "field_default f = Some v" and "isl (formatDefaultValue env (Some v) d)"
  shows "isl (generateAddColumnSQL env n f d)"
  using assms
  by (auto simp: generateAddColumnSQL_def addColumnParts_def defaultClause_def split: sum.splits)

lemma generateAlterColumnSQL_isl:
  assumes "default_change c = Some (from, Some v)"
    and "isl (formatDefaultValue env (Some v) POSTGRESQL)"
  shows "isl (generateAlterColumnSQL env k n f c POSTGRESQL)"
  using assms
  by (auto simp: generateAlterColumnSQL_def alterColumnParts_def defaultChangeParts_def
      split: sum.splits prod.splits)

lemma modifiedFieldsLoop_isl:
  assumes "(f, c) \<in> set fms" and "\<And>k. isl (generateAlterColumnSQL env k n f c d)"
  shows "isl (modifiedFieldsLoop env n d fms k)"
  using assms(1)
proof (induction fms arbitrary: k)
  case Nil
  then show ?case by simp
next
  case (Cons fm fms)
  obtain f0 c0 where fm: "fm = (f0, c0)" by (cases fm)
  show ?case
  proof (cases "fm = (f, c)")
    case True
    with fm assms(2) [of k] show ?thesis by (auto split: sum.splits)
  next
    case False
    with Cons.prems have "(f, c) \<in> set fms" by simp
    note ih = Cons.IH [OF this]
    show ?thesis
    proof (cases "generateAlterColumnSQL env k n f0 c0 d")
      case (Inl e)
      with fm show ?thesis by simp
    next
      case (Inr r)
      obtain s k' where "r = (s, k')" by (cases r)
      with Inr fm ih [of k'] show ?thesis by (auto split: sum.splits)
    qed
  qed
qed

lemma modificationParts_isl_added:
  assumes "f \<in> set (fieldsAdded m)" and "field_default f = Some v"
    and "isl (formatDefaultValue env (Some v) d)"
  shows "isl (modificationParts env d m k)"
proof -
  have "isl (addedFieldParts env (tableName m) d f)"
    using generateAddColumnSQL_isl [OF assms(2,3), of "tableName m"]
    by (auto simp: addedFieldParts_def split: sum.splits)
  from mapE_isl [of f "fieldsAdded m" "addedFieldParts env (tableName m) d", OF assms(1) this]
  show ?thesis
    by (auto simp: modificationParts_def split: sum.splits)
qed

lemma modificationParts_isl_modified:
  assumes "(f, c) \<in> set (fieldsModified m)" and "default_change c = Some (from, Some v)"
    and "isl (formatDefaultValue env (Some v) POSTGRESQL)"
  shows "isl (modificationParts env POSTGRESQL m k)"
  using modifiedFieldsLoop_isl [OF assms(1), of env "tableName m" POSTGRESQL k]
    generateAlterColumnSQL_isl [OF assms(2,3)]
  by (auto simp: modificationParts_def split: sum.splits prod.splits)

lemma modificationsLoop_isl:
  assumes "m \<in> set ms" and "\<And>k. isl (modificationParts env d m k)"
  shows "isl (modificationsLoop env d ms k)"
  using assms(1)
proof (induction ms arbitrary: k)
  case Nil
  then show ?case by simp
next
  case (Cons m0 ms)
  show ?case
  proof (cases "m0 = m")
    case True
    with assms(2) [of k] show ?thesis by (auto split: sum.splits)
  next
    case False
    with Cons.prems have "m \<in> set ms" by simp
    note ih = Cons.IH [OF this]
    show ?thesis
    proof (cases "modificationParts env d m0 k")
      case (Inl e)
      then show ?thesis by simp
    next
      case (Inr r)
      obtain ps k' where "r = (ps, k')" by (cases r)
      with Inr ih [of k'] show ?thesis by (auto split: sum.splits)
    qed
  qed
qed

lemma policyBlock_isl:
  "isl (parseCondition env to st) \<Longrightarrow> isl (policyBlock env (Some (from, to)) stmt st)"
  by (auto simp: policyBlock_def split: sum.splits)


lemma tablePolicies_isl:
  assumes "Some (from, to) \<in> {read_change (changes tc), create_change (changes tc),
                               update_change (changes tc), delete_change (changes tc)}"
    and "\<And>x. isl (parseCondition env to
            \<lparr> config = createParserConfig model POSTGRESQL, rootTable = ac_tableName tc,
              expressions = x \<rparr>)"
  shows "isl (tablePolicies env model tc)"
proof -
  let ?n = "ac_tableName tc"
  let ?S = "\<lambda>x. \<lparr> config = createParserConfig model POSTGRESQL, rootTable = ?n, expressions = x \<rparr>"
  have fail: "isl (policyBlock env (Some (from, to)) stmt (?S x))" for stmt x
    by (rule policyBlock_isl) (rule assms(2))
  show ?thesis
  proof (cases "policyBlock env (read_change (changes tc))
                  (createPolicySQL ?n ''read'' ''FOR SELECT USING'') (?S [])")
    case (Inl e)
    then show ?thesis by (simp add: tablePolicies_def)
  next
    case (Inr r1)
    obtain p1 s1 where r1: "r1 = (p1, s1)" by (cases r1)
    from policyBlock_next Inr r1 obtain x1 where s1: "s1 = ?S x1" by blast
    have n1: "read_change (changes tc) \<noteq> Some (from, to)"
      using fail [of "createPolicySQL ?n ''read'' ''FOR SELECT USING''" "[]"] Inr by auto
    show ?thesis
    proof (cases "policyBlock env (create_change (changes tc))
                    (createPolicySQL ?n ''create'' ''FOR INSERT WITH CHECK'') s1")
      case (Inl e)
      with \<open>policyBlock env (read_change (changes tc)) _ _ = Inr r1\<close> r1
      show ?thesis by (simp add: tablePolicies_def)
    next
      case (Inr r2)
      note b2 = Inr
      obtain p2 s2 where r2: "r2 = (p2, s2)" by (cases r2)
      from policyBlock_next b2 r2 s1 obtain x2 where s2: "s2 = ?S x2" by blast
      have n2: "create_change (changes tc) \<noteq> Some (from, to)"
        using fail [of "createPolicySQL ?n ''create'' ''FOR INSERT WITH CHECK''" x1] b2 s1 by auto
      show ?thesis
      proof (cases "policyBlock env (update_change (changes tc))
                      (createPolicySQL ?n ''update'' ''FOR UPDATE USING'') s2")
        case (Inl e)
        with \<open>policyBlock env (read_change (changes tc)) _ _ = Inr r1\<close> r1 b2 r2
        show ?thesis by (simp add: tablePolicies_def)
      next
        case (Inr r3)
        note b3 = Inr
        obtain p3 s3 where r3: "r3 = (p3, s3)" by (cases r3)
        from policyBlock_next b3 r3 s2 obtain x3 where s3: "s3 = ?S x3" by blast
        have n3: "update_change (changes tc) \<noteq> Some (from, to)"
          using fail [of "createPolicySQL ?n ''update'' ''FOR UPDATE USING''" x2] b3 s2 by auto
        from assms(1) n1 n2 n3 have "delete_change (changes tc) = Some (from, to)" by auto
        with fail [of "createPolicySQL ?n ''delete'' ''FOR DELETE USING''" x3] s3
        have "isl (policyBlock env (delete_change (changes tc))
                (createPolicySQL ?n ''delete'' ''FOR DELETE USING'') s3)" by simp
        then obtain e where "policyBlock env (delete_change (changes tc))
                (createPolicySQL ?n ''delete'' ''FOR DELETE USING'') s3 = Inl e"
          by (auto simp: isl_def)
        with \<open>policyBlock env (read_change (changes tc)) _ _ = Inr r1\<close> r1 b2 r2 b3 r3
        show ?thesis by (simp add: tablePolicies_def Let_def)
      qed
    qed
  qed
qed

lemma generateRLSPoliciesSQL_isl:
  assumes "tc \<in> set (acd_tables acd)"
    and "Some (from, to) \<in> {read_change (changes tc), create_change (changes tc),
                               update_change (changes tc), delete_change (changes tc)}"
    and "\<And>x. isl (parseCondition env to
            \<lparr> config = createParserConfig model POSTGRESQL, rootTable = ac_tableName tc,
              expressions = x \<rparr>)"
  shows "isl (generateRLSPoliciesSQL env acd model)"
  using mapE_isl [of tc "acd_tables acd" "tablePolicies env model", OF assms(1)
      tablePolicies_isl [OF assms(2,3)]]
  by (auto simp: generateRLSPoliciesSQL_def split: sum.splits)


lemma generateInitialMigration_isl_creates:
  "isl (mapE (\<lambda>t. generateCreateTableSQL env t d) (tables model)) \<Longrightarrow>
   isl (generateInitialMigration env model d)"
  by (auto simp: generateInitialMigration_def isl_def)

lemma generateInitialMigration_isl_policies:
  "isl (generateRLSPoliciesSQL env (generateAccessControlDiffForFullMigration (tables model)) model)
   \<Longrightarrow> isl (generateInitialMigration env model POSTGRESQL)"
  by (auto simp: generateInitialMigration_def isl_def Let_def split: sum.splits)

lemma generateMigrationFromDiff_isl_creates:
  "isl (mapE (\<lambda>t. generateCreateTableSQL env t d) (added (diff_tables diff))) \<Longrightarrow>
   isl (generateMigrationFromDiff env diff model d)"
  by (auto simp: generateMigrationFromDiff_def isl_def)

lemma generateMigrationFromDiff_isl_mods:
  "isl (modificationsLoop env d (modified (diff_tables diff)) 0) \<Longrightarrow>
   isl (generateMigrationFromDiff env diff model d)"
  by (auto simp: generateMigrationFromDiff_def isl_def split: sum.splits)

lemma generateMigrationFromDiff_isl_policies:
  "isl (generateRLSPoliciesSQL env (diff_accessControl diff) model) \<Longrightarrow>
   isl (generateMigrationFromDiff env diff model POSTGRESQL)"
  by (auto simp: generateMigrationFromDiff_def isl_def split: sum.splits prod.splits)

text \<open>
  Claim C3, as stated, fails in its last part. When the compiler rejects the read
  condition of \<open>users\<close>, the bootstrap fails with the compiler's message as it is: not
  wrapped, and naming neither the table nor the operation. When the compiler rejects the
  default of \<open>created_at\<close>, the message is wrapped as \<open>Failed to parse expression: ...\<close>
  and names neither the table nor the field.
\<close>

theorem compiler_error_not_identified_counterexample:
  "parseCondition exampleEnv ownerCondition
      \<lparr> config = createParserConfig ownedModel POSTGRESQL, rootTable = ''users'',
        expressions = [] \<rparr> = Inl ''Unknown condition''
   \<and> generateInitialMigration exampleEnv ownedModel POSTGRESQL = Inl ''Unknown condition''
   \<and> \<not> sublist ''users'' ''Unknown condition''
   \<and> \<not> sublist ''read'' ''Unknown condition''
   \<and> parseExpression exampleEnv (JObj [(''$func'', JObj [(''RANDOM'', JArr [])])])
         (emptyState POSTGRESQL) = Inl ''Unknown expression''
   \<and> generateInitialMigration exampleEnv (timestampedModel (Some randomCall)) POSTGRESQL
       = Inl ''Failed to parse expression: Unknown expression''
   \<and> \<not> sublist ''users'' ''Failed to parse expression: Unknown expression''
   \<and> \<not> sublist ''created_at'' ''Failed to parse expression: Unknown expression''"
  by code_simp

text \<open>
  Claim C3, amended. A compiler failure is fatal to the enclosing operation, which then
  returns an error and no SQL: this holds for the default of a field of any table that is
  created, of any added field and, on PostgreSQL, of any changed default, and on
  PostgreSQL for any condition of a policy that is written. The error of a failed
  operation carries the underlying compiler message and nothing that names the table,
  the field or the operation. A failed default gives \<open>Failed to parse expression: \<close>
  followed by the message of the compiler on the normalized default (or by the message
  of the engine's \<open>TypeError\<close> when normalization itself fails on an ill-shaped \<open>$func\<close>
  node). A failed bootstrap gives the error of the default of a field of one of the
  model's tables or, on PostgreSQL, the unwrapped message of the compiler on one of the
  four conditions of one of the model's tables, compiled for that table. A failed
  migration gives the error of the default of a field of an added table, of an added
  field or, on PostgreSQL, of a changed default of the diff, or, on PostgreSQL, the
  unwrapped message of the compiler on a new condition of the diff's access-control
  changes, compiled for the table of that change.
\<close>

theorem compiler_failure_is_fatal:
  "(\<forall>x err. formatDefaultValue env (Some x) dialect = Inl err \<longrightarrow>
        (\<exists>nv msg. normalizeExpression x = Inr nv
              \<and> parseExpression env nv (emptyState dialect) = Inl msg
              \<and> err = ''Failed to parse expression: '' @ msg)
        \<or> (\<exists>kind. normalizeExpression x = Inl kind
              \<and> err = ''Failed to parse expression: '' @ typeErrorMessage env kind))
   \<and> (\<forall>err. generateInitialMigration env model dialect = Inl err \<longrightarrow>
        (\<exists>t f x. t \<in> set (tables model) \<and> f \<in> set (table_fields t)
              \<and> field_default f = Some x
              \<and> formatDefaultValue env (Some x) dialect = Inl err)
        \<or> (dialect = POSTGRESQL
            \<and> (\<exists>t c st. t \<in> set (tables model)
                  \<and> c \<in> {ac_read (accessControl t), ac_create (accessControl t),
                           ac_update (accessControl t), ac_delete (accessControl t)}
                  \<and> parseCondition env c
                       \<lparr> config = createParserConfig model POSTGRESQL,
                         rootTable = table_name t, expressions = st \<rparr> = Inl err)))
   \<and> (\<forall>err. generateMigrationFromDiff env diff model dialect = Inl err \<longrightarrow>
        (\<exists>t f x. t \<in> set (added (diff_tables diff)) \<and> f \<in> set (table_fields t)
              \<and> field_default f = Some x
              \<and> formatDefaultValue env (Some x) dialect = Inl err)
        \<or> (\<exists>m f x. m \<in> set (modified (diff_tables diff)) \<and> f \<in> set (fieldsAdded m)
              \<and> field_default f = Some x
              \<and> formatDefaultValue env (Some x) dialect = Inl err)
        \<or> (dialect = POSTGRESQL
            \<and> (\<exists>m f ch before x. m \<in> set (modified (diff_tables diff))
                  \<and> (f, ch) \<in> set (fieldsModified m)
                  \<and> default_change ch = Some (before, Some x)
                  \<and> formatDefaultValue env (Some x) dialect = Inl err))
        \<or> (dialect = POSTGRESQL
            \<and> (\<exists>ta before c st. ta \<in> set (acd_tables (diff_accessControl diff))
                  \<and> Some (before, c) \<in> {read_change (changes ta), create_change (changes ta),
                                         update_change (changes ta), delete_change (changes ta)}
                  \<and> parseCondition env c
                       \<lparr> config = createParserConfig model POSTGRESQL,
                         rootTable = ac_tableName ta, expressions = st \<rparr> = Inl err)))
   \<and> (typeof (Some v) = ''object'' \<and> v \<noteq> JNull \<and> normalizeExpression v = Inr nv
        \<and> parseExpression env nv (emptyState dialect) = Inl msg \<longrightarrow>
        (t \<in> set (tables model) \<and> f \<in> set (table_fields t) \<and> field_default f = Some v
           \<longrightarrow> isl (generateInitialMigration env model dialect))
      \<and> (t \<in> set (added (diff_tables diff)) \<and> f \<in> set (table_fields t)
           \<and> field_default f = Some v
           \<longrightarrow> isl (generateMigrationFromDiff env diff model dialect))
      \<and> (m \<in> set (modified (diff_tables diff)) \<and> f \<in> set (fieldsAdded m)
           \<and> field_default f = Some v
           \<longrightarrow> isl (generateMigrationFromDiff env diff model dialect))
      \<and> (dialect = POSTGRESQL \<and> m \<in> set (modified (diff_tables diff))
           \<and> (f, c) \<in> set (fieldsModified m) \<and> default_change c = Some (from, Some v)
           \<longrightarrow> isl (generateMigrationFromDiff env diff model dialect)))
   \<and> ((\<forall>x. isl (parseCondition env cond
                 \<lparr> config = createParserConfig model POSTGRESQL, rootTable = n,
                   expressions = x \<rparr>)) \<longrightarrow>
        (t \<in> set (tables model) \<and> n = table_name t
           \<and> cond \<in> {ac_read (accessControl t), ac_create (accessControl t),
                       ac_update (accessControl t), ac_delete (accessControl t)}
           \<longrightarrow> isl (generateInitialMigration env model POSTGRESQL))
      \<and> (tc \<in> set (acd_tables (diff_accessControl diff)) \<and> n = ac_tableName tc
           \<and> Some (old, cond) \<in> {read_change (changes tc), create_change (changes tc),
                                    update_change (changes tc), delete_change (changes tc)}
           \<longrightarrow> isl (generateMigrationFromDiff env diff model POSTGRESQL)))"
proof (intro conjI impI allI)
  fix x err
  assume "formatDefaultValue env (Some x) dialect = Inl err"
  then show "(\<exists>nv msg. normalizeExpression x = Inr nv
              \<and> parseExpression env nv (emptyState dialect) = Inl msg
              \<and> err = ''Failed to parse expression: '' @ msg)
        \<or> (\<exists>kind. normalizeExpression x = Inl kind
              \<and> err = ''Failed to parse expression: '' @ typeErrorMessage env kind)"
    by (rule formatDefaultValue_Inl)
next
  fix err
  assume "generateInitialMigration env model dialect = Inl err"
  then show "(\<exists>t f x. t \<in> set (tables model) \<and> f \<in> set (table_fields t)
              \<and> field_default f = Some x
              \<and> formatDefaultValue env (Some x) dialect = Inl err)
        \<or> (dialect = POSTGRESQL
            \<and> (\<exists>t c st. t \<in> set (tables model)
                  \<and> c \<in> {ac_read (accessControl t), ac_create (accessControl t),
                           ac_update (accessControl t), ac_delete (accessControl t)}
                  \<and> parseCondition env c
                       \<lparr> config = createParserConfig model POSTGRESQL,
                         rootTable = table_name t, expressions = st \<rparr> = Inl err))"
    by (rule generateInitialMigration_Inl)
next
  fix err
  assume "generateMigrationFromDiff env diff model dialect = Inl err"
  then show "(\<exists>t f x. t \<in> set (added (diff_tables diff)) \<and> f \<in> set (table_fields t)
              \<and> field_default f = Some x
              \<and> formatDefaultValue env (Some x) dialect = Inl err)
        \<or> (\<exists>m f x. m \<in> set (modified (diff_tables diff)) \<and> f \<in> set (fieldsAdded m)
              \<and> field_default f = Some x
              \<and> formatDefaultValue env (Some x) dialect = Inl err)
        \<or> (dialect = POSTGRESQL
            \<and> (\<exists>m f ch before x. m \<in> set (modified (diff_tables diff))
                  \<and> (f, ch) \<in> set (fieldsModified m)
                  \<and> default_change ch = Some (before, Some x)
                  \<and> formatDefaultValue env (Some x) dialect = Inl err))
        \<or> (dialect = POSTGRESQL
            \<and> (\<exists>ta before c st. ta \<in> set (acd_tables (diff_accessControl diff))
                  \<and> Some (before, c) \<in> {read_change (changes ta), create_change (changes ta),
                                         update_change (changes ta), delete_change (changes ta)}
                  \<and> parseCondition env c
                       \<lparr> config = createParserConfig model POSTGRESQL,
                         rootTable = ac_tableName ta, expressions = st \<rparr> = Inl err))"
    by (rule generateMigrationFromDiff_Inl)
next
  assume c: "typeof (Some v) = ''object'' \<and> v \<noteq> JNull \<and> normalizeExpression v = Inr nv
        \<and> parseExpression env nv (emptyState dialect) = Inl msg"
  then have fails: "isl (formatDefaultValue env (Some v) dialect)"
    using formatDefaultValue_fails [of v nv env dialect msg] by simp
  {
    assume a: "t \<in> set (tables model) \<and> f \<in> set (table_fields t) \<and> field_default f = Some v"
    then have "isl (generateCreateTableSQL env t dialect)"
      using generateCreateTableSQL_isl fails by blast
    with a have "isl (mapE (\<lambda>t. generateCreateTableSQL env t dialect) (tables model))"
      using mapE_isl [of t "tables model" "\<lambda>t. generateCreateTableSQL env t dialect"] by simp
    then show "isl (generateInitialMigration env model dialect)"
      by (rule generateInitialMigration_isl_creates)
  }
  {
    assume a: "t \<in> set (added (diff_tables diff)) \<and> f \<in> set (table_fields t)
           \<and> field_default f = Some v"
    then have "isl (generateCreateTableSQL env t dialect)"
      using generateCreateTableSQL_isl fails by blast
    with a have "isl (mapE (\<lambda>t. generateCreateTableSQL env t dialect) (added (diff_tables diff)))"
      using mapE_isl [of t "added (diff_tables diff)" "\<lambda>t. generateCreateTableSQL env t dialect"]
      by simp
    then show "isl (generateMigrationFromDiff env diff model dialect)"
      by (rule generateMigrationFromDiff_isl_creates)
  }
  {
    assume a: "m \<in> set (modified (diff_tables diff)) \<and> f \<in> set (fieldsAdded m)
           \<and> field_default f = Some v"
    then have "isl (modificationParts env dialect m k)" for k
      using modificationParts_isl_added fails by blast
    with a have "isl (modificationsLoop env dialect (modified (diff_tables diff)) 0)"
      using modificationsLoop_isl by blast
    then show "isl (generateMigrationFromDiff env diff model dialect)"
      by (rule generateMigrationFromDiff_isl_mods)
  }
  {
    assume a: "dialect = POSTGRESQL \<and> m \<in> set (modified (diff_tables diff))
           \<and> (f, c) \<in> set (fieldsModified m) \<and> default_change c = Some (from, Some v)"
    then have "isl (modificationParts env dialect m k)" for k
      using modificationParts_isl_modified fails by blast
    with a have "isl (modificationsLoop env dialect (modified (diff_tables diff)) 0)"
      using modificationsLoop_isl by blast
    then show "isl (generateMigrationFromDiff env diff model dialect)"
      by (rule generateMigrationFromDiff_isl_mods)
  }
next
  assume c: "\<forall>x. isl (parseCondition env cond
                 \<lparr> config = createParserConfig model POSTGRESQL, rootTable = n,
                   expressions = x \<rparr>)"
  {
    assume a: "t \<in> set (tables model) \<and> n = table_name t
           \<and> cond \<in> {ac_read (accessControl t), ac_create (accessControl t),
                       ac_update (accessControl t), ac_delete (accessControl t)}"
    let ?acd = "generateAccessControlDiffForFullMigration (tables model)"
    have m: "fullAccessChange t \<in> set (acd_tables ?acd)"
      using a by (simp add: generateAccessControlDiffForFullMigration_def)
    have s: "Some (defaultCondition, cond)
        \<in> {read_change (changes (fullAccessChange t)), create_change (changes (fullAccessChange t)),
            update_change (changes (fullAccessChange t)), delete_change (changes (fullAccessChange t))}"
      using a by (auto simp: fullAccessChange_def)
    have "isl (generateRLSPoliciesSQL env ?acd model)"
      by (rule generateRLSPoliciesSQL_isl [OF m s]) (use a c in \<open>simp add: fullAccessChange_def\<close>)
    then show "isl (generateInitialMigration env model POSTGRESQL)"
      by (rule generateInitialMigration_isl_policies)
  }
  {
    assume a: "tc \<in> set (acd_tables (diff_accessControl diff)) \<and> n = ac_tableName tc
           \<and> Some (old, cond) \<in> {read_change (changes tc), create_change (changes tc),
                                    update_change (changes tc), delete_change (changes tc)}"
    have "isl (generateRLSPoliciesSQL env (diff_accessControl diff) model)"
      by (rule generateRLSPoliciesSQL_isl [of tc _ old cond]) (use a c in simp_all)
    then show "isl (generateMigrationFromDiff env diff model POSTGRESQL)"
      by (rule generateMigrationFromDiff_isl_policies)
  }
qed

theorem compiler_failure_is_fatal_witness:
  "formatDefaultValue exampleEnv (Some randomCall) POSTGRESQL = Inl ''Failed to parse expression: Unknown expression''
   \<and> ((\<exists>nv msg. normalizeExpression randomCall = Inr nv
              \<and> parseExpression exampleEnv nv (emptyState POSTGRESQL) = Inl msg
              \<and> ''Failed to parse expression: Unknown expression'' = ''Failed to parse expression: '' @ msg)
        \<or> (\<exists>kind. normalizeExpression randomCall = Inl kind
              \<and> ''Failed to parse expression: Unknown expression'' = ''Failed to parse expression: '' @ typeErrorMessage exampleEnv kind))
   \<and> generateInitialMigration exampleEnv ownedModel POSTGRESQL = Inl ''Unknown condition''
   \<and> ((\<exists>t f x. t \<in> set (tables ownedModel) \<and> f \<in> set (table_fields t)
              \<and> field_default f = Some x
              \<and> formatDefaultValue exampleEnv (Some x) POSTGRESQL = Inl ''Unknown condition'')
        \<or> (POSTGRESQL = POSTGRESQL
            \<and> (\<exists>t c st. t \<in> set (tables ownedModel)
                  \<and> c \<in> {ac_read (accessControl t), ac_create (accessControl t),
                           ac_update (accessControl t), ac_delete (accessControl t)}
                  \<and> parseCondition exampleEnv c
                       \<lparr> config = createParserConfig ownedModel POSTGRESQL,
                         rootTable = table_name t, expressions = st \<rparr> = Inl ''Unknown condition'')))
   \<and> generateMigrationFromDiff exampleEnv (fieldModDiff ''users'' (createdAtField None) randomDefaultChange) simpleModel POSTGRESQL
       = Inl ''Failed to parse expression: Unknown expression''
   \<and> ((\<exists>t f x. t \<in> set (added (diff_tables (fieldModDiff ''users'' (createdAtField None) randomDefaultChange))) \<and> f \<in> set (table_fields t)
              \<and> field_default f = Some x
              \<and> formatDefaultValue exampleEnv (Some x) POSTGRESQL = Inl ''Failed to parse expression: Unknown expression'')
        \<or> (\<exists>m f x. m \<in> set (modified (diff_tables (fieldModDiff ''users'' (createdAtField None) randomDefaultChange))) \<and> f \<in> set (fieldsAdded m)
              \<and> field_default f = Some x
              \<and> formatDefaultValue exampleEnv (Some x) POSTGRESQL = Inl ''Failed to parse expression: Unknown expression'')
        \<or> (POSTGRESQL = POSTGRESQL
            \<and> (\<exists>m f ch before x. m \<in> set (modified (diff_tables (fieldModDiff ''users'' (createdAtField None) randomDefaultChange)))
                  \<and> (f, ch) \<in> set (fieldsModified m)
                  \<and> default_change ch = Some (before, Some x)
                  \<and> formatDefaultValue exampleEnv (Some x) POSTGRESQL = Inl ''Failed to parse expression: Unknown expression''))
        \<or> (POSTGRESQL = POSTGRESQL
            \<and> (\<exists>ta before c st. ta \<in> set (acd_tables (diff_accessControl (fieldModDiff ''users'' (createdAtField None) randomDefaultChange)))
                  \<and> Some (before, c) \<in> {read_change (changes ta), create_change (changes ta),
                                         update_change (changes ta), delete_change (changes ta)}
                  \<and> parseCondition exampleEnv c
                       \<lparr> config = createParserConfig simpleModel POSTGRESQL,
                         rootTable = ac_tableName ta, expressions = st \<rparr> = Inl ''Failed to parse expression: Unknown expression'')))
   \<and> isl (generateInitialMigration exampleEnv (timestampedModel (Some randomCall)) POSTGRESQL)
   \<and> isl (generateInitialMigration exampleEnv ownedModel POSTGRESQL)"
proof -
  have e1: "formatDefaultValue exampleEnv (Some randomCall) POSTGRESQL = Inl ''Failed to parse expression: Unknown expression''"
    by code_simp
  have e2: "generateInitialMigration exampleEnv ownedModel POSTGRESQL = Inl ''Unknown condition''"
    by code_simp
  have e3: "generateMigrationFromDiff exampleEnv (fieldModDiff ''users'' (createdAtField None) randomDefaultChange) simpleModel POSTGRESQL
       = Inl ''Failed to parse expression: Unknown expression''"
    by code_simp
  have hc: "typeof (Some randomCall) = ''object'' \<and> randomCall \<noteq> JNull
        \<and> normalizeExpression randomCall = Inr (JObj [(''$func'', JObj [(''RANDOM'', JArr [])])])
        \<and> parseExpression exampleEnv (JObj [(''$func'', JObj [(''RANDOM'', JArr [])])])
            (emptyState POSTGRESQL) = Inl ''Unknown expression''"
    by code_simp
  have hf: "usersTable\<lparr> table_fields := [idField, emailField, createdAtField (Some randomCall)] \<rparr>
           \<in> set (tables (timestampedModel (Some randomCall)))
        \<and> createdAtField (Some randomCall)
           \<in> set (table_fields
                  (usersTable\<lparr> table_fields := [idField, emailField, createdAtField (Some randomCall)] \<rparr>))
        \<and> field_default (createdAtField (Some randomCall)) = Some randomCall"
    by (simp add: timestampedModel_def createdAtField_def)
  have hp: "isl (parseCondition exampleEnv ownerCondition
                 \<lparr> config = createParserConfig ownedModel POSTGRESQL, rootTable = ''users'',
                   expressions = x \<rparr>)" for x
    by (simp add: exampleEnv_def ownerCondition_def)
  have ht: "usersTable\<lparr> accessControl :=
         \<lparr> ac_read = ownerCondition, ac_create = JBool True,
           ac_update = ownerCondition, ac_delete = JBool False \<rparr> \<rparr> \<in> set (tables ownedModel)
       \<and> ''users'' = table_name (usersTable\<lparr> accessControl :=
         \<lparr> ac_read = ownerCondition, ac_create = JBool True,
           ac_update = ownerCondition, ac_delete = JBool False \<rparr> \<rparr>)
       \<and> ownerCondition \<in> {ac_read (accessControl (usersTable\<lparr> accessControl :=
         \<lparr> ac_read = ownerCondition, ac_create = JBool True,
           ac_update = ownerCondition, ac_delete = JBool False \<rparr> \<rparr>)),
          ac_create (accessControl (usersTable\<lparr> accessControl :=
         \<lparr> ac_read = ownerCondition, ac_create = JBool True,
           ac_update = ownerCondition, ac_delete = JBool False \<rparr> \<rparr>)),
          ac_update (accessControl (usersTable\<lparr> accessControl :=
         \<lparr> ac_read = ownerCondition, ac_create = JBool True,
           ac_update = ownerCondition, ac_delete = JBool False \<rparr> \<rparr>)),
          ac_delete (accessControl (usersTable\<lparr> accessControl :=
         \<lparr> ac_read = ownerCondition, ac_create = JBool True,
           ac_update = ownerCondition, ac_delete = JBool False \<rparr> \<rparr>))}"
    by (simp add: ownedModel_def usersTable_def)
  note p1 = compiler_failure_is_fatal [THEN conjunct1, rule_format, OF e1]
  note p2 = compiler_failure_is_fatal [THEN conjunct2, THEN conjunct1, rule_format, OF e2]
  note p3 = compiler_failure_is_fatal [THEN conjunct2, THEN conjunct2, THEN conjunct1,
      rule_format, OF e3]
  note p4 = compiler_failure_is_fatal [THEN conjunct2, THEN conjunct2, THEN conjunct2,
      THEN conjunct1, rule_format, OF hc, THEN conjunct1, rule_format, OF hf]
  note p5 = compiler_failure_is_fatal [THEN conjunct2, THEN conjunct2, THEN conjunct2,
      THEN conjunct2, rule_format, OF hp, THEN conjunct1, rule_format, OF ht]
  show ?thesis
    by (rule conjI [OF e1 conjI [OF p1 conjI [OF e2 conjI [OF p2 conjI [OF e3
          conjI [OF p3 conjI [OF p4 p5]]]]]]])
qed

end
